theory Spec2Isabelle
  imports Complex_Main "HOL-Library.Multiset"
begin

section \<open>Conventions of the embedding\<close>

text \<open>
  The development embeds the two kernels of \<^verbatim>\<open>csrc/kernels/internode_ll.cu\<close>,
  \<^verbatim>\<open>dispatch\<close> and \<open>combine\<close>, as functions on explicit memories.

  \<^item> A C \<^verbatim>\<open>int\<close> is an \<open>int\<close>. Every value the theorems speak about is a
    counter that starts at zero and is bounded by \<open>num_max_dispatch_tokens_per_rank\<close>
    (the kernel aborts beyond it), or the negation of such a counter minus one, so no
    32-bit operation of the modelled paths wraps. Sizes and indices that the kernel
    only uses as loop bounds or block coordinates (\<open>num_tokens\<close>, \<open>num_experts\<close>,
    \<open>num_ranks\<close>, \<open>rank\<close>, \<open>blockIdx.x\<close>) are \<open>nat\<close>; \<open>/\<close> and \<open>%\<close> on them
    are \<open>div\<close> and \<open>mod\<close>. \<open>num_topk\<close> is an \<open>int\<close>, since \<open>combine\<close> tests it
    against zero; a loop \<^verbatim>\<open>for (i = 0; i < num_topk; ++i)\<close> runs over
    \<open>[0..<nat num_topk]\<close>.
  \<^item> A device array reached through a pointer is a function from the element index to
    the element; a pointer that may be \<^verbatim>\<open>nullptr\<close> is an \<open>option\<close>.
  \<^item> \<^verbatim>\<open>assert(false)\<close> and \<^verbatim>\<open>EP_DEVICE_ASSERT\<close> abort the launch: the kernel
    functions return \<open>Inl\<close> of the fault.
  \<^item> Threads, warps and blocks are run one after the other. Every memory cell the
    theorems speak about is either written by one block only or updated by atomic
    additions, which commute; the blocks of a grid run in the order of
    \<open>blockIdx.x\<close>, the warps of a block in the order of \<open>warp_id\<close>.
  \<^item> A one-sided write to another rank (\<^verbatim>\<open>nvshmemi_ibgda_put_nbi_warp\<close> or the
    store through a P2P pointer, \<^verbatim>\<open>nvshmemi_ibgda_amo_nonfetch_add\<close> or
    \<^verbatim>\<open>atomicAdd_system\<close>) is recorded in the sender's outbox and delivered to the
    destination rank's memory; both transports have the same effect there.
  \<^item> The token payload is an abstract value: the FP8 cast of the send loop and the
    diagnostics arrays (\<open>g_sync_counter\<close> and the like) are not part of the state.
\<close>

datatype fatal =
    SlotOverflow        \<comment> \<open>"Buffer overflow: Token dispatch buffer is full!"\<close>
  | TokenDrop           \<comment> \<open>"Token drop detected! This must never happen."\<close>
  | CountTimeout        \<comment> \<open>"Timeout waiting for count - synchronization failure"\<close>
  | RecvOverflow        \<comment> \<open>"Receive buffer overflow: Too many tokens for expert!"\<close>
  | SlotIndexOverflow   \<comment> \<open>"Token slot index exceeds buffer bounds!"\<close>
  | DeviceAssert        \<comment> \<open>a failed \<^verbatim>\<open>EP_DEVICE_ASSERT\<close>\<close>
  | RegisterOverrun     \<comment> \<open>a store past the end of \<^verbatim>\<open>reg_topk_idx[kNumMaxTopk]\<close>\<close>

text \<open>A loop whose body may abort the launch.\<close>

primrec fold_fatal :: "('a \<Rightarrow> 's \<Rightarrow> fatal + 's) \<Rightarrow> 'a list \<Rightarrow> 's \<Rightarrow> fatal + 's" where
  "fold_fatal f [] s = Inr s"
| "fold_fatal f (a # as) s =
     (case f a s of Inl err \<Rightarrow> Inl err | Inr s' \<Rightarrow> fold_fatal f as s')"

text \<open>\<^verbatim>\<open>static_cast<int>\<close> of an \<^verbatim>\<open>int64_t\<close>: the low 32 bits, read as two's complement.\<close>

definition static_cast_int :: "int \<Rightarrow> int" where
  "static_cast_int v = (v + 2147483648) mod 4294967296 - 2147483648"

text \<open>\<^verbatim>\<open>atomicAdd(address, val)\<close>: returns the old value, stores the sum.\<close>

definition atomicAdd :: "(nat \<Rightarrow> int) \<Rightarrow> nat \<Rightarrow> int \<Rightarrow> int \<times> (nat \<Rightarrow> int)" where
  "atomicAdd mem a v = (mem a, mem(a := mem a + v))"

section \<open>Kernel parameters\<close>

text \<open>
  The run-time parameters of the \<open>dispatch\<close> kernel that the model uses, and its three
  template parameters.
\<close>

record config =
  num_tokens :: nat
  num_max_dispatch_tokens_per_rank :: int
  num_topk :: int
  num_experts :: nat
  rank :: nat
  num_ranks :: nat
  num_warp_groups :: nat
  num_warps_per_group :: nat
  phases :: nat
  kUseFP8 :: bool
  kUseUE8M0 :: bool
  kHidden :: nat

text \<open>Modelled from the spec: the phase bits of \<^verbatim>\<open>configs.cuh\<close>, \<open>SEND (1)\<close> and \<open>RECV (2)\<close>.\<close>

definition send_phase :: "'a config_scheme \<Rightarrow> bool" where
  "send_phase c = odd (phases c)"

definition recv_phase :: "'a config_scheme \<Rightarrow> bool" where
  "recv_phase c = odd (phases c div 2)"

definition num_warps :: "'a config_scheme \<Rightarrow> nat" where
  "num_warps c = num_warp_groups c * num_warps_per_group c"

definition num_local_experts :: "'a config_scheme \<Rightarrow> nat" where
  "num_local_experts c = num_experts c div num_ranks c"

definition is_pure_ep_mode :: "'a config_scheme \<Rightarrow> bool" where
  "is_pure_ep_mode c = (num_ranks c = num_experts c div num_local_experts c)"

section \<open>The count handshake\<close>

text \<open>
  The sender posts \<^verbatim>\<open>-actual_sent_count - 1\<close>; the receiver computes
  \<^verbatim>\<open>num_recv_tokens = -num_recv_tokens - 1\<close> from the value it read.
\<close>

definition encode_count :: "int \<Rightarrow> int" where
  "encode_count n = - n - 1"

definition decode_count :: "int \<Rightarrow> int" where
  "decode_count v = - v - 1"

section \<open>Dispatch, send phase\<close>

record 'p message =
  src_idx :: int
  payload :: 'p

datatype 'p remote_op =
    Put nat int "'p message"   \<comment> \<open>destination rank, message slot of \<open>rdma_recv_x\<close>, message\<close>
  | AddCount nat nat int       \<comment> \<open>destination rank, index into \<open>rdma_recv_count\<close>, addend\<close>

text \<open>
  The memory one rank's send phase works on. \<open>expert_sync_info_buffer\<close> is the array of
  \<^verbatim>\<open>ExpertSyncInfo\<close> as 32-bit words (see the section on that structure);
  \<open>slot_reservations\<close> is a ghost field counting the \<^verbatim>\<open>atomicAdd\<close> calls of the send
  loop on every counter.
\<close>

record 'p sender =
  atomic_counter_per_expert :: "nat \<Rightarrow> int"
  expert_sync_info_buffer :: "(nat \<Rightarrow> int) option"
  outbox :: "'p remote_op list"
  slot_reservations :: "nat \<Rightarrow> nat"

text \<open>
  Words of one \<^verbatim>\<open>ExpertSyncInfo\<close>: two arrays of 8 \<^verbatim>\<open>int\<close>, four \<^verbatim>\<open>int\<close>
  scalars, a pointer (8 bytes, 8-aligned), \<^verbatim>\<open>int padding[1]\<close> and 4 bytes of tail
  padding: 96 bytes.
\<close>

definition sync_info_words :: nat where
  "sync_info_words = 24"

definition expected_tokens_per_rank_addr :: "nat \<Rightarrow> nat \<Rightarrow> nat" where
  "expected_tokens_per_rank_addr expert_idx r = expert_idx * sync_info_words + r"

definition received_tokens_per_rank_addr :: "nat \<Rightarrow> nat \<Rightarrow> nat" where
  "received_tokens_per_rank_addr expert_idx r = expert_idx * sync_info_words + 8 + r"

definition total_expected_tokens_addr :: "nat \<Rightarrow> nat" where
  "total_expected_tokens_addr expert_idx = expert_idx * sync_info_words + 16"

definition total_received_tokens_addr :: "nat \<Rightarrow> nat" where
  "total_received_tokens_addr expert_idx = expert_idx * sync_info_words + 17"

definition expert_processing_complete_addr :: "nat \<Rightarrow> nat" where
  "expert_processing_complete_addr expert_idx = expert_idx * sync_info_words + 19"

text \<open>Lines 338-342: the two atomic increments of the send loop.\<close>

definition update_expected :: "(nat \<Rightarrow> int) option \<Rightarrow> nat \<Rightarrow> nat \<Rightarrow> (nat \<Rightarrow> int) option" where
  "update_expected buf dst_expert_idx r =
     (case buf of
        None \<Rightarrow> None
      | Some words \<Rightarrow>
          (let words1 = snd (atomicAdd words (expected_tokens_per_rank_addr dst_expert_idx r) 1)
           in Some (snd (atomicAdd words1 (total_expected_tokens_addr dst_expert_idx) 1))))"

text \<open>The expert a top-k entry names, as the kernel reads it.\<close>

definition dst_expert_idx :: "config \<Rightarrow> (nat \<Rightarrow> int) \<Rightarrow> nat \<Rightarrow> nat \<Rightarrow> int" where
  "dst_expert_idx c topk_idx token_idx topk_offset =
     static_cast_int (topk_idx (token_idx * nat (num_topk c) + topk_offset))"

text \<open>
  The body of the top-k loop (lines 299-371) in the block of \<open>responsible_expert_idx\<close>:
  the three \<^verbatim>\<open>continue\<close>s, the slot reservation, the bounds check, the update of
  \<^verbatim>\<open>ExpertSyncInfo\<close> and the put of the message to slot
  \<open>[dst_expert_local_idx][rank][slot_idx]\<close> of the owner's \<open>rdma_recv_x\<close>.
\<close>

definition send_entry ::
  "config \<Rightarrow> (nat \<Rightarrow> int) \<Rightarrow> (nat \<Rightarrow> 'p) \<Rightarrow> nat \<Rightarrow> nat \<Rightarrow> nat \<Rightarrow> 'p sender \<Rightarrow> fatal + 'p sender" where
  "send_entry c topk_idx x responsible_expert_idx token_idx topk_offset s =
     (let dst = dst_expert_idx c topk_idx token_idx topk_offset;
          owner_rank_for_token =
            (if is_pure_ep_mode c then int (token_idx mod num_ranks c) else - 1)
      in if dst < 0 then Inr s
         else if dst \<noteq> int responsible_expert_idx then Inr s
         else if is_pure_ep_mode c \<and> int (rank c) \<noteq> owner_rank_for_token then Inr s
         else if dst \<ge> 0 then
           (let dst_rank = nat dst div num_local_experts c;
                dst_expert_local_idx = nat dst mod num_local_experts c;
                counter_idx = nat dst * num_ranks c + rank c;
                slot_idx = fst (atomicAdd (atomic_counter_per_expert s) counter_idx 1);
                counter' = snd (atomicAdd (atomic_counter_per_expert s) counter_idx 1)
            in if slot_idx \<ge> num_max_dispatch_tokens_per_rank c then Inl SlotOverflow
               else Inr (s\<lparr>atomic_counter_per_expert := counter',
                          slot_reservations :=
                            (slot_reservations s)(counter_idx := Suc (slot_reservations s counter_idx)),
                          expert_sync_info_buffer :=
                            update_expected (expert_sync_info_buffer s) (nat dst) (rank c),
                          outbox := outbox s @
                            [Put dst_rank
                               (int dst_expert_local_idx * int (num_ranks c) *
                                  num_max_dispatch_tokens_per_rank c +
                                int (rank c) * num_max_dispatch_tokens_per_rank c + slot_idx)
                               \<lparr>src_idx = int token_idx, payload = x token_idx\<rparr>]\<rparr>))
         else Inr s)"

text \<open>
  The token loop of one processing warp (line 230):
  \<^verbatim>\<open>for (token_idx = warp_id; token_idx < num_tokens; token_idx += num_processing_warps)\<close>.
  A warp enters it only when \<open>warp_id < num_warps - 1 = num_processing_warps\<close>, so the
  stride is positive.
\<close>

function warp_tokens :: "nat \<Rightarrow> nat \<Rightarrow> nat \<Rightarrow> nat list" where
  "warp_tokens token_idx num_processing_warps n =
     (if token_idx < n \<and> 0 < num_processing_warps
      then token_idx # warp_tokens (token_idx + num_processing_warps) num_processing_warps n
      else [])"
  by pat_completeness auto
termination
  by (relation "measure (\<lambda>(t, p, n). n - t)") auto

declare warp_tokens.simps [simp del]

definition block_tokens :: "config \<Rightarrow> nat list" where
  "block_tokens c =
     concat (map (\<lambda>warp_id. warp_tokens warp_id (num_warps c - 1) (num_tokens c))
                 [0..<num_warps c - 1])"

definition send_token ::
  "config \<Rightarrow> (nat \<Rightarrow> int) \<Rightarrow> (nat \<Rightarrow> 'p) \<Rightarrow> nat \<Rightarrow> nat \<Rightarrow> 'p sender \<Rightarrow> fatal + 'p sender" where
  "send_token c topk_idx x responsible_expert_idx token_idx =
     fold_fatal (send_entry c topk_idx x responsible_expert_idx token_idx) [0..<nat (num_topk c)]"

definition send_tokens ::
  "config \<Rightarrow> (nat \<Rightarrow> int) \<Rightarrow> (nat \<Rightarrow> 'p) \<Rightarrow> nat \<Rightarrow> 'p sender \<Rightarrow> fatal + 'p sender" where
  "send_tokens c topk_idx x responsible_expert_idx =
     fold_fatal (send_token c topk_idx x responsible_expert_idx) (block_tokens c)"

text \<open>Lines 413-436: the count the token-drop detector expects of this block.\<close>

definition expected_entry :: "config \<Rightarrow> (nat \<Rightarrow> int) \<Rightarrow> nat \<Rightarrow> nat \<Rightarrow> nat \<Rightarrow> bool" where
  "expected_entry c topk_idx responsible_expert_idx token_idx k =
     (let idx = dst_expert_idx c topk_idx token_idx k
      in if idx < 0 then False
         else if idx = int responsible_expert_idx
              then (if \<not> is_pure_ep_mode c then True
                    else token_idx mod num_ranks c = rank c)
              else False)"

definition expected_of_token :: "config \<Rightarrow> (nat \<Rightarrow> int) \<Rightarrow> nat \<Rightarrow> nat \<Rightarrow> nat" where
  "expected_of_token c topk_idx responsible_expert_idx token_idx =
     length (filter (expected_entry c topk_idx responsible_expert_idx token_idx)
               [0..<nat (num_topk c)])"

definition expected_count :: "config \<Rightarrow> (nat \<Rightarrow> int) \<Rightarrow> nat \<Rightarrow> nat" where
  "expected_count c topk_idx responsible_expert_idx =
     sum_list (map (expected_of_token c topk_idx responsible_expert_idx) [0..<num_tokens c])"

text \<open>
  One block up to the first grid sync: the send loop, then the token-drop check of
  lines 403-446.
\<close>

definition send_block ::
  "config \<Rightarrow> (nat \<Rightarrow> int) \<Rightarrow> (nat \<Rightarrow> 'p) \<Rightarrow> nat \<Rightarrow> 'p sender \<Rightarrow> fatal + 'p sender" where
  "send_block c topk_idx x responsible_expert_idx s =
     (case send_tokens c topk_idx x responsible_expert_idx s of
        Inl err \<Rightarrow> Inl err
      | Inr s' \<Rightarrow>
          if responsible_expert_idx < num_experts c
             \<and> atomic_counter_per_expert s' (responsible_expert_idx * num_ranks c + rank c)
                 < int (expected_count c topk_idx responsible_expert_idx)
          then Inl TokenDrop
          else Inr s')"

text \<open>
  Lines 523-574: after the grid sync, thread 0 of the block posts the count of its expert
  to cell \<open>[dst_expert_local_idx][rank]\<close> of the owner's \<open>rdma_recv_count\<close>. The
  counters live in the host's workspace, so the pointer is never null.
\<close>

definition actual_sent_count :: "config \<Rightarrow> nat \<Rightarrow> 'p sender \<Rightarrow> int" where
  "actual_sent_count c responsible_expert_idx s =
     (let n = atomic_counter_per_expert s (responsible_expert_idx * num_ranks c + rank c)
      in if is_pure_ep_mode c then (if n < 0 then 0 else n) else n)"

definition count_op :: "config \<Rightarrow> nat \<Rightarrow> 'p sender \<Rightarrow> 'p remote_op" where
  "count_op c responsible_expert_idx s =
     (let dst_rank = responsible_expert_idx div num_local_experts c;
          dst_expert_local_idx = responsible_expert_idx mod num_local_experts c;
          dst_offset = dst_expert_local_idx * num_ranks c + rank c
      in AddCount dst_rank dst_offset
           (encode_count (actual_sent_count c responsible_expert_idx s)))"

definition send_count :: "config \<Rightarrow> nat \<Rightarrow> 'p sender \<Rightarrow> 'p sender" where
  "send_count c responsible_expert_idx s =
     (if responsible_expert_idx < num_experts c
      then s\<lparr>outbox := outbox s @ [count_op c responsible_expert_idx s]\<rparr>
      else s)"

text \<open>
  Lines 160-166: thread 0 of block 0 clears every \<^verbatim>\<open>ExpertSyncInfo\<close> at the start
  of the kernel, before the test of the send bit.
\<close>

definition clear_sync_info :: "config \<Rightarrow> (nat \<Rightarrow> int) option \<Rightarrow> (nat \<Rightarrow> int) option" where
  "clear_sync_info c buf =
     map_option (\<lambda>words a. if a < num_experts c * sync_info_words then 0 else words a) buf"

text \<open>
  The send phase of the whole grid (one block per expert) on one rank: the clearing of
  \<^verbatim>\<open>ExpertSyncInfo\<close>, then the send loops of all blocks, the grid sync, the count sends
  of all blocks. Without the send bit the kernel jumps from the clearing to the receive
  phase.
\<close>

definition dispatch_send ::
  "config \<Rightarrow> (nat \<Rightarrow> int) \<Rightarrow> (nat \<Rightarrow> 'p) \<Rightarrow> 'p sender \<Rightarrow> fatal + 'p sender" where
  "dispatch_send c topk_idx x s =
     (let s0 = s\<lparr>expert_sync_info_buffer := clear_sync_info c (expert_sync_info_buffer s)\<rparr>
      in if \<not> send_phase c then Inr s0
         else
           (case fold_fatal (send_block c topk_idx x) [0..<num_experts c] s0 of
              Inl err \<Rightarrow> Inl err
            | Inr s' \<Rightarrow> Inr (fold (send_count c) [0..<num_experts c] s')))"

section \<open>Dispatch, receive phase\<close>

text \<open>
  The outputs of the receive phase on one rank. \<open>count_polls\<close> is a ghost field
  counting the loads of \<open>rdma_recv_count\<close>.
\<close>

record ('p, 's) receiver =
  packed_recv_x :: "int \<Rightarrow> 'p"
  packed_recv_x_scales :: "int \<Rightarrow> 's"
  packed_recv_src_info :: "int \<Rightarrow> int"
  packed_recv_layout_range :: "nat \<Rightarrow> int \<times> int"
  packed_recv_count :: "nat \<Rightarrow> int"
  cumulative_local_expert_recv_stats :: "(nat \<Rightarrow> int) option"
  count_polls :: nat

definition MAX_WAIT :: nat where
  "MAX_WAIT = 100000000"

text \<open>
  Lines 639-660: the spin on one cell of \<open>rdma_recv_count\<close>. \<open>ld i\<close> is the value the
  \<open>i\<close>-th \<^verbatim>\<open>ld_acquire_sys_global\<close> of the cell returns. The result is the value read
  and the number of loads.
\<close>

function wait_count :: "(nat \<Rightarrow> int) \<Rightarrow> nat \<Rightarrow> fatal + int \<times> nat" where
  "wait_count ld wait_iterations =
     (if ld wait_iterations \<noteq> 0 then Inr (ld wait_iterations, Suc wait_iterations)
      else if Suc wait_iterations > MAX_WAIT then Inl CountTimeout
      else wait_count ld (Suc wait_iterations))"
  by pat_completeness auto
termination
  by (relation "measure (\<lambda>(ld, i). MAX_WAIT - i)") auto

declare wait_count.simps [simp del]

text \<open>Modelled from the spec: \<^verbatim>\<open>pack2\<close> of \<^verbatim>\<open>utils.cuh\<close>, \<open>pack(num, begin)\<close>, as a pair.\<close>

definition pack2 :: "int \<Rightarrow> int \<Rightarrow> int \<times> int" where
  "pack2 num begin = (num, begin)"

definition add_stats :: "(nat \<Rightarrow> int) option \<Rightarrow> nat \<Rightarrow> int \<Rightarrow> (nat \<Rightarrow> int) option" where
  "add_stats stats local_expert_idx n =
     map_option (\<lambda>mem. snd (atomicAdd mem local_expert_idx n)) stats"

text \<open>
  Lines 629-705, run by lane 0 of sub-warp 1 of a warp group: wait for the count of the
  pair, decode it, reserve the range in \<open>packed_recv_count\<close>, check the capacity, publish
  the layout. The result carries \<open>num_recv_tokens\<close> and \<open>recv_token_begin_idx\<close>.
\<close>

definition recv_count ::
  "config \<Rightarrow> (nat \<Rightarrow> nat \<Rightarrow> int) \<Rightarrow> nat \<Rightarrow> ('p, 's) receiver
     \<Rightarrow> fatal + int \<times> int \<times> ('p, 's) receiver" where
  "recv_count c ld pair_idx r =
     (let local_expert_idx = pair_idx div num_ranks c;
          src_rank = pair_idx mod num_ranks c
      in case wait_count (ld (local_expert_idx * num_ranks c + src_rank)) 0 of
           Inl err \<Rightarrow> Inl err
         | Inr (v, loads) \<Rightarrow>
             if v \<noteq> 0 then
               (let num_recv_tokens = decode_count v;
                    counter_idx = local_expert_idx * num_ranks c + src_rank;
                    recv_token_begin_idx =
                      fst (atomicAdd (packed_recv_count r) counter_idx num_recv_tokens);
                    count' = snd (atomicAdd (packed_recv_count r) counter_idx num_recv_tokens)
                in if recv_token_begin_idx + num_recv_tokens > num_max_dispatch_tokens_per_rank c
                   then Inl RecvOverflow
                   else Inr (num_recv_tokens, recv_token_begin_idx,
                          r\<lparr>packed_recv_count := count',
                            packed_recv_layout_range :=
                              (packed_recv_layout_range r)
                                (local_expert_idx * num_ranks c + src_rank :=
                                   pack2 num_recv_tokens recv_token_begin_idx),
                            cumulative_local_expert_recv_stats :=
                              add_stats (cumulative_local_expert_recv_stats r)
                                local_expert_idx num_recv_tokens,
                            count_polls := count_polls r + loads\<rparr>))
             else Inr (0, 0, r\<lparr>count_polls := count_polls r + loads\<rparr>))"

text \<open>
  The scale layout of lines 753-773. \<^verbatim>\<open>align\<close> and the scale formats come from
  \<^verbatim>\<open>utils.cuh\<close>; \<open>scale_of m j\<close> stands for
  \<^verbatim>\<open>extract_required_scale_format(ld_nc_global(src_scales + j))\<close> of message body \<open>m\<close>.
\<close>

definition num_scales :: "config \<Rightarrow> nat" where
  "num_scales c = kHidden c div 128"

definition num_elems_per_pack :: "config \<Rightarrow> nat" where
  "num_elems_per_pack c = (if kUseUE8M0 c then 4 else 1)"

definition num_aligned_scales :: "config \<Rightarrow> nat" where
  "num_aligned_scales c =
     ((num_scales c + num_elems_per_pack c - 1) div num_elems_per_pack c) * num_elems_per_pack c"

definition write_scale ::
  "config \<Rightarrow> ('p \<Rightarrow> nat \<Rightarrow> 's) \<Rightarrow> nat \<Rightarrow> int \<Rightarrow> 'p \<Rightarrow> nat \<Rightarrow> (int \<Rightarrow> 's) \<Rightarrow> (int \<Rightarrow> 's)" where
  "write_scale c scale_of local_expert_idx token_idx body j scales =
     (let token_stride = int (num_elems_per_pack c);
          pack_stride = int (num_ranks c) * num_max_dispatch_tokens_per_rank c
                          * int (num_elems_per_pack c);
          pack_idx = int (j div num_elems_per_pack c);
          elem_idx = int (j mod num_elems_per_pack c);
          base = int local_expert_idx * int (num_ranks c) * num_max_dispatch_tokens_per_rank c
                   * int (num_aligned_scales c)
      in scales(base + token_idx * token_stride + pack_idx * pack_stride + elem_idx
                  := scale_of body j))"

text \<open>
  The body of the copy loop (lines 717-774) for message \<open>i\<close> of the pair: the source
  index goes to \<open>recv_src_info[i]\<close>, the body to slot \<open>recv_token_begin_idx + i\<close> of
  \<open>packed_recv_x\<close>, the scales (lanes \<open>j\<close> and \<open>j + 32\<close>, below \<open>num_scales\<close>) to
  \<open>packed_recv_x_scales\<close>.
\<close>

definition copy_token ::
  "config \<Rightarrow> (int \<Rightarrow> 'p message) \<Rightarrow> ('p \<Rightarrow> nat \<Rightarrow> 's) \<Rightarrow> nat \<Rightarrow> int \<Rightarrow> nat
     \<Rightarrow> ('p, 's) receiver \<Rightarrow> fatal + ('p, 's) receiver" where
  "copy_token c rdma_recv_x scale_of pair_idx recv_token_begin_idx i r =
     (let local_expert_idx = pair_idx div num_ranks c;
          src_rank = pair_idx mod num_ranks c;
          pair_base = int local_expert_idx * int (num_ranks c) * num_max_dispatch_tokens_per_rank c
                        + int src_rank * num_max_dispatch_tokens_per_rank c;
          msg = rdma_recv_x (pair_base + int i);
          src_info' = (packed_recv_src_info r)(pair_base + int i := src_idx msg);
          token_slot_idx = recv_token_begin_idx + int i
      in if token_slot_idx \<ge> num_max_dispatch_tokens_per_rank c then Inl SlotIndexOverflow
         else Inr (r\<lparr>packed_recv_src_info := src_info',
                     packed_recv_x :=
                       (packed_recv_x r)(pair_base + token_slot_idx := payload msg),
                     packed_recv_x_scales :=
                       (if kUseFP8 c
                        then fold (write_scale c scale_of local_expert_idx token_slot_idx (payload msg))
                               [0..<min (num_scales c) 64] (packed_recv_x_scales r)
                        else packed_recv_x_scales r)\<rparr>))"

text \<open>One warp group of the block of a pair: the count, then the copy loop.\<close>

definition recv_warp_group ::
  "config \<Rightarrow> (nat \<Rightarrow> nat \<Rightarrow> int) \<Rightarrow> (int \<Rightarrow> 'p message) \<Rightarrow> ('p \<Rightarrow> nat \<Rightarrow> 's) \<Rightarrow> nat \<Rightarrow> nat
     \<Rightarrow> ('p, 's) receiver \<Rightarrow> fatal + ('p, 's) receiver" where
  "recv_warp_group c ld rdma_recv_x scale_of pair_idx warp_group_id r =
     (case recv_count c ld pair_idx r of
        Inl err \<Rightarrow> Inl err
      | Inr (num_recv_tokens, recv_token_begin_idx, r') \<Rightarrow>
          if num_recv_tokens = 0 then Inr r'
          else if \<not> num_scales c \<le> 64 then Inl DeviceAssert
          else fold_fatal (copy_token c rdma_recv_x scale_of pair_idx recv_token_begin_idx)
                 [0..<nat num_recv_tokens] r')"

text \<open>
  Lines 591-780 in block \<open>responsible_expert_idx\<close>: everything is guarded by
  \<open>should_process\<close> and by the block naming a pair.
\<close>

definition recv_block ::
  "config \<Rightarrow> (nat \<Rightarrow> int) \<Rightarrow> (nat \<Rightarrow> nat \<Rightarrow> int) \<Rightarrow> (int \<Rightarrow> 'p message) \<Rightarrow> ('p \<Rightarrow> nat \<Rightarrow> 's)
     \<Rightarrow> nat \<Rightarrow> ('p, 's) receiver \<Rightarrow> fatal + ('p, 's) receiver" where
  "recv_block c num_recv_tokens_per_rank ld rdma_recv_x scale_of responsible_expert_idx r =
     (let should_process = (num_recv_tokens_per_rank (rank c) > 0)
      in if should_process \<and> responsible_expert_idx < num_local_experts c * num_ranks c
         then (if \<not> (num_warps_per_group c > 1 \<and> num_warp_groups c < 15) then Inl DeviceAssert
               else fold_fatal (recv_warp_group c ld rdma_recv_x scale_of responsible_expert_idx)
                      [0..<num_warp_groups c] r)
         else Inr r)"

text \<open>The receive phase of the whole grid on one rank.\<close>

definition dispatch_recv ::
  "config \<Rightarrow> (nat \<Rightarrow> int) \<Rightarrow> (nat \<Rightarrow> nat \<Rightarrow> int) \<Rightarrow> (int \<Rightarrow> 'p message) \<Rightarrow> ('p \<Rightarrow> nat \<Rightarrow> 's)
     \<Rightarrow> ('p, 's) receiver \<Rightarrow> fatal + ('p, 's) receiver" where
  "dispatch_recv c num_recv_tokens_per_rank ld rdma_recv_x scale_of r =
     (if \<not> recv_phase c then Inr r
      else fold_fatal (recv_block c num_recv_tokens_per_rank ld rdma_recv_x scale_of)
             [0..<num_experts c] r)"

definition is_put :: "'p remote_op \<Rightarrow> bool" where
  "is_put op = (case op of Put _ _ _ \<Rightarrow> True | AddCount _ _ _ \<Rightarrow> False)"

definition reserved :: "nat \<Rightarrow> nat \<Rightarrow> 'p sender \<Rightarrow> 'p sender \<Rightarrow> bool" where
  "reserved idx n s s' =
     (atomic_counter_per_expert s' =
        (atomic_counter_per_expert s)(idx := atomic_counter_per_expert s idx + int n)
      \<and> slot_reservations s' = (slot_reservations s)(idx := slot_reservations s idx + n)
      \<and> (\<exists>ps. outbox s' = outbox s @ ps \<and> list_all is_put ps))"

definition sent_by_block :: "config \<Rightarrow> (nat \<Rightarrow> int) \<Rightarrow> nat \<Rightarrow> nat" where
  "sent_by_block c topk_idx e = sum_list (map (expected_of_token c topk_idx e) (block_tokens c))"

definition sent_total :: "config \<Rightarrow> (nat \<Rightarrow> int) \<Rightarrow> nat list \<Rightarrow> nat \<Rightarrow> nat" where
  "sent_total c topk_idx es i =
     sum_list (map (\<lambda>e. if e * num_ranks c + rank c = i then sent_by_block c topk_idx e else 0) es)"

definition blocks_done :: "config \<Rightarrow> (nat \<Rightarrow> int) \<Rightarrow> nat list \<Rightarrow> 'p sender \<Rightarrow> 'p sender \<Rightarrow> bool" where
  "blocks_done c topk_idx es s s' =
     ((\<forall>i. atomic_counter_per_expert s' i = atomic_counter_per_expert s i + int (sent_total c topk_idx es i))
      \<and> (\<forall>i. slot_reservations s' i = slot_reservations s i + sent_total c topk_idx es i)
      \<and> (\<exists>ps. outbox s' = outbox s @ ps \<and> list_all is_put ps))"

primrec deliver_count :: "nat \<Rightarrow> 'p remote_op \<Rightarrow> (nat \<Rightarrow> int) \<Rightarrow> (nat \<Rightarrow> int)" where
  "deliver_count d (Put dst a m) mem = mem"
| "deliver_count d (AddCount dst a v) mem = (if dst = d then snd (atomicAdd mem a v) else mem)"

primrec deliver_put :: "nat \<Rightarrow> 'p remote_op \<Rightarrow> (int \<Rightarrow> 'p message) \<Rightarrow> (int \<Rightarrow> 'p message)" where
  "deliver_put d (Put dst a m) mem = (if dst = d then mem(a := m) else mem)"
| "deliver_put d (AddCount dst a v) mem = mem"

text \<open>
  Scenarios of the specification. S4: four ranks, four experts, one expert per rank, top-1
  routing, token 5 picks expert 2. S3: capacity 2, three tokens that all pick expert 0.
  S2: two ranks, four experts, every top-k entry is padding.
\<close>

definition scenario_S4 :: "nat \<Rightarrow> config" where
  "scenario_S4 r =
     \<lparr>num_tokens = 6, num_max_dispatch_tokens_per_rank = 4, num_topk = 1, num_experts = 4,
      rank = r, num_ranks = 4, num_warp_groups = 1, num_warps_per_group = 32, phases = 3,
      kUseFP8 = False, kUseUE8M0 = False, kHidden = 128\<rparr>"

definition topk_S4 :: "nat \<Rightarrow> int" where
  "topk_S4 i = (if i = 5 then 2 else - 1)"

definition scenario_S3 :: config where
  "scenario_S3 =
     \<lparr>num_tokens = 3, num_max_dispatch_tokens_per_rank = 2, num_topk = 1, num_experts = 1,
      rank = 0, num_ranks = 1, num_warp_groups = 1, num_warps_per_group = 32, phases = 3,
      kUseFP8 = False, kUseUE8M0 = False, kHidden = 128\<rparr>"

definition fresh_sender :: "unit sender" where
  "fresh_sender =
     \<lparr>atomic_counter_per_expert = (\<lambda>_. 0), expert_sync_info_buffer = None, outbox = [],
      slot_reservations = (\<lambda>_. 0)\<rparr>"

definition fresh_receiver :: "(unit, unit) receiver" where
  "fresh_receiver =
     \<lparr>packed_recv_x = (\<lambda>_. ()), packed_recv_x_scales = (\<lambda>_. ()), packed_recv_src_info = (\<lambda>_. 0),
      packed_recv_layout_range = (\<lambda>_. (0, 0)), packed_recv_count = (\<lambda>_. 0),
      cumulative_local_expert_recv_stats = None, count_polls = 0\<rparr>"

definition scenario_S2 :: "nat \<Rightarrow> config" where
  "scenario_S2 r =
     \<lparr>num_tokens = 2, num_max_dispatch_tokens_per_rank = 4, num_topk = 1, num_experts = 4,
      rank = r, num_ranks = 2, num_warp_groups = 1, num_warps_per_group = 32, phases = 3,
      kUseFP8 = False, kUseUE8M0 = False, kHidden = 128\<rparr>"

section \<open>Combine, reduce phase\<close>

text \<open>
  A \<^verbatim>\<open>float\<close> or \<^verbatim>\<open>nv_bfloat16\<close> value: a finite number, an infinity or a NaN. Finite
  results are computed exactly: rounding, overflow to infinity and the sign of zero are
  left out, so the sums of the model are the kernel's sums up to rounding. A product or a
  sum of zeros is exact in IEEE arithmetic too.
\<close>

datatype fp = Finite real | PosInf | NegInf | NaN

fun fmul :: "fp \<Rightarrow> fp \<Rightarrow> fp" where
  "fmul NaN b = NaN"
| "fmul a NaN = NaN"
| "fmul (Finite a) (Finite b) = Finite (a * b)"
| "fmul (Finite a) PosInf = (if a = 0 then NaN else if 0 < a then PosInf else NegInf)"
| "fmul (Finite a) NegInf = (if a = 0 then NaN else if 0 < a then NegInf else PosInf)"
| "fmul PosInf (Finite b) = (if b = 0 then NaN else if 0 < b then PosInf else NegInf)"
| "fmul NegInf (Finite b) = (if b = 0 then NaN else if 0 < b then NegInf else PosInf)"
| "fmul PosInf PosInf = PosInf"
| "fmul PosInf NegInf = NegInf"
| "fmul NegInf PosInf = NegInf"
| "fmul NegInf NegInf = PosInf"

fun fadd :: "fp \<Rightarrow> fp \<Rightarrow> fp" where
  "fadd NaN b = NaN"
| "fadd a NaN = NaN"
| "fadd (Finite a) (Finite b) = Finite (a + b)"
| "fadd PosInf NegInf = NaN"
| "fadd NegInf PosInf = NaN"
| "fadd PosInf b = PosInf"
| "fadd a PosInf = PosInf"
| "fadd NegInf b = NegInf"
| "fadd a NegInf = NegInf"

text \<open>\<^verbatim>\<open>static_cast<nv_bfloat16>\<close> of a \<^verbatim>\<open>float\<close>, up to rounding.\<close>

definition float2bfloat16 :: "fp \<Rightarrow> fp" where
  "float2bfloat16 v = v"

definition kNumElemsPerInt4 :: nat where
  "kNumElemsPerInt4 = 8"

text \<open>The host launches \<^verbatim>\<open>combine<hidden, 9>\<close>.\<close>

definition kNumMaxTopk :: nat where
  "kNumMaxTopk = 9"

text \<open>
  The parameters of the \<open>combine\<close> kernel: those it shares with \<open>dispatch\<close>, and its
  own. \<open>num_sms\<close> is \<^verbatim>\<open>gridDim.x\<close>, \<open>num_threads\<close> is \<^verbatim>\<open>blockDim.x\<close>.
\<close>

record combine_config = config +
  num_combined_tokens :: nat
  hidden :: nat
  num_sms :: nat
  num_threads :: nat

definition actual_num_int4_per_data :: "'a combine_config_scheme \<Rightarrow> nat" where
  "actual_num_int4_per_data c = (hidden c * 2) div 16"

definition elements_per_token :: "'a combine_config_scheme \<Rightarrow> nat" where
  "elements_per_token c = actual_num_int4_per_data c * kNumElemsPerInt4"

text \<open>
  What the reduce phase writes on one rank. \<open>grid_syncs\<close> counts the
  \<^verbatim>\<open>cg::this_grid().sync()\<close> the blocks went through and \<open>corruption_logged\<close> records
  the \<^verbatim>\<open>[FATAL] safe_num_topk corrupted\<close> print of thread 0 of block 0.
\<close>

record combine_state =
  combined_x :: "int \<Rightarrow> fp"
  fp32_workspace :: "int \<Rightarrow> fp"
  grid_syncs :: nat
  corruption_logged :: bool

text \<open>Modelled from the spec: \<^verbatim>\<open>unpack2\<close> of \<^verbatim>\<open>utils.cuh\<close>, the inverse of \<open>pack2\<close>.\<close>

definition unpack2 :: "int \<times> int \<Rightarrow> int \<times> int" where
  "unpack2 layout = (fst layout, snd layout)"

text \<open>
  Lines 1252-1268: the guard on \<open>safe_num_topk\<close>, the copy of the parameter \<open>num_topk\<close>
  that lines 921 and 931 made through shared memory; the result is the value used from
  then on.
\<close>

definition is_corrupted :: "int \<Rightarrow> bool" where
  "is_corrupted safe_num_topk = (safe_num_topk \<le> 0 \<or> safe_num_topk > 32)"

definition revalidate_num_topk :: "int \<Rightarrow> int" where
  "revalidate_num_topk safe_num_topk = (if is_corrupted safe_num_topk then 1 else safe_num_topk)"

text \<open>
  Lines 1335-1359: the scan of the slots \<open>[offset_in_packed, offset_in_packed + num)\<close> of
  one source rank for the first slot in range whose source index is the token; the scan
  stops there (\<^verbatim>\<open>break\<close>). \<open>section\<close> is the offset of the \<open>(expert, from_rank)\<close>
  section of \<open>src_info\<close>.
\<close>

fun find_slot :: "int \<Rightarrow> (int \<Rightarrow> int) \<Rightarrow> int \<Rightarrow> int \<Rightarrow> nat \<Rightarrow> nat list \<Rightarrow> int option" where
  "find_slot capacity src_info section offset_in_packed token_idx [] = None"
| "find_slot capacity src_info section offset_in_packed token_idx (slot # slots) =
     (let packed_slot_idx = offset_in_packed + int slot
      in if packed_slot_idx \<ge> capacity
         then find_slot capacity src_info section offset_in_packed token_idx slots
         else if src_info (section + packed_slot_idx) \<noteq> int token_idx
         then find_slot capacity src_info section offset_in_packed token_idx slots
         else Some packed_slot_idx)"

text \<open>
  Lines 1345-1352: element \<open>j\<close> of chunk \<open>int4_idx\<close> of a packed slot of \<open>x\<close>, or zero when
  the chunk lies outside the buffer (\<open>buffer_offset\<close> is a \<^verbatim>\<open>size_t\<close>).
\<close>

definition load_x ::
  "'a combine_config_scheme \<Rightarrow> (int \<Rightarrow> fp) \<Rightarrow> nat \<Rightarrow> nat \<Rightarrow> int \<Rightarrow> nat \<Rightarrow> nat \<Rightarrow> fp" where
  "load_x c x src_local_expert_idx from_rank packed_slot_idx int4_idx j =
     (let n = int (actual_num_int4_per_data c);
          cap = num_max_dispatch_tokens_per_rank c;
          buffer_offset = int src_local_expert_idx * int (num_ranks c) * cap * n
                            + (int from_rank * cap + packed_slot_idx) * n + int int4_idx;
          max_buffer_size = int (num_local_experts c) * int (num_ranks c) * cap * n
      in if buffer_offset < 0 \<or> buffer_offset \<ge> max_buffer_size then Finite 0
         else x (buffer_offset * int kNumElemsPerInt4 + int j))"

text \<open>Lines 1331-1360: the contribution of one source rank to one top-k entry.\<close>

definition accumulate_rank ::
  "'a combine_config_scheme \<Rightarrow> (int \<Rightarrow> fp) \<Rightarrow> (int \<Rightarrow> int) \<Rightarrow> (nat \<Rightarrow> int \<times> int)
     \<Rightarrow> nat \<Rightarrow> nat \<Rightarrow> nat \<Rightarrow> fp \<Rightarrow> nat \<Rightarrow> nat \<Rightarrow> fp \<Rightarrow> fp" where
  "accumulate_rank c x src_info layout_range token_idx int4_idx j weight src_local_expert_idx
     from_rank acc =
     (let num_tokens_from_rank = fst (unpack2 (layout_range (src_local_expert_idx * num_ranks c + from_rank)));
          offset_in_packed = snd (unpack2 (layout_range (src_local_expert_idx * num_ranks c + from_rank)));
          cap = num_max_dispatch_tokens_per_rank c;
          section = int src_local_expert_idx * int (num_ranks c) * cap + int from_rank * cap
      in case find_slot cap src_info section offset_in_packed token_idx [0..<nat num_tokens_from_rank] of
           None \<Rightarrow> acc
         | Some packed_slot_idx \<Rightarrow>
             fadd acc (fmul (load_x c x src_local_expert_idx from_rank packed_slot_idx int4_idx j) weight))"

text \<open>Lines 1319-1362: one top-k entry; only an expert of this rank contributes.\<close>

definition accumulate_entry ::
  "'a combine_config_scheme \<Rightarrow> (int \<Rightarrow> fp) \<Rightarrow> (int \<Rightarrow> int) \<Rightarrow> (nat \<Rightarrow> int \<times> int) option
     \<Rightarrow> nat \<Rightarrow> nat \<Rightarrow> nat \<Rightarrow> int \<Rightarrow> fp \<Rightarrow> fp \<Rightarrow> fp" where
  "accumulate_entry c x src_info layout_range token_idx int4_idx j src_expert_idx_local weight acc =
     (if src_expert_idx_local < 0 then acc
      else
        (let src_rank_local = nat src_expert_idx_local div num_local_experts c;
             src_local_expert_idx = nat src_expert_idx_local mod num_local_experts c
         in case layout_range of
              None \<Rightarrow> acc
            | Some layout \<Rightarrow>
                if src_rank_local = rank c
                then fold (accumulate_rank c x src_info layout token_idx int4_idx j weight
                             src_local_expert_idx) [0..<num_ranks c] acc
                else acc))"

text \<open>
  Lines 1289-1362: \<open>combined_values[j]\<close> of chunk \<open>int4_idx\<close> of a token, from the
  registers \<open>reg_topk_idx\<close> and \<open>reg_topk_weights\<close> loaded with stride \<open>safe_num_topk\<close>.
\<close>

definition reg_topk_idx :: "int \<Rightarrow> (nat \<Rightarrow> int) \<Rightarrow> nat \<Rightarrow> nat \<Rightarrow> int" where
  "reg_topk_idx safe_num_topk topk_idx token_idx i =
     static_cast_int (topk_idx (token_idx * nat safe_num_topk + i))"

definition reg_topk_weights :: "int \<Rightarrow> (nat \<Rightarrow> fp) \<Rightarrow> nat \<Rightarrow> nat \<Rightarrow> fp" where
  "reg_topk_weights safe_num_topk topk_weights token_idx i =
     topk_weights (token_idx * nat safe_num_topk + i)"

definition combined_values ::
  "'a combine_config_scheme \<Rightarrow> int \<Rightarrow> (nat \<Rightarrow> int) \<Rightarrow> (nat \<Rightarrow> fp) \<Rightarrow> (int \<Rightarrow> fp) \<Rightarrow> (int \<Rightarrow> int)
     \<Rightarrow> (nat \<Rightarrow> int \<times> int) option \<Rightarrow> nat \<Rightarrow> nat \<Rightarrow> nat \<Rightarrow> fp" where
  "combined_values c safe_num_topk topk_idx topk_weights x src_info layout_range token_idx int4_idx j =
     fold (\<lambda>i. accumulate_entry c x src_info layout_range token_idx int4_idx j
                  (reg_topk_idx safe_num_topk topk_idx token_idx i)
                  (reg_topk_weights safe_num_topk topk_weights token_idx i))
          [0..<nat safe_num_topk] (Finite 0)"

text \<open>
  Lines 1364-1394: the write of element \<open>j\<close> of a chunk: to the FP32 workspace in Pure
  EP mode, as bfloat16 to \<open>combined_x\<close> otherwise, nowhere without the receive bit.
\<close>

definition write_element ::
  "'a combine_config_scheme \<Rightarrow> (nat \<Rightarrow> nat \<Rightarrow> nat \<Rightarrow> fp) \<Rightarrow> nat \<Rightarrow> nat \<Rightarrow> nat
     \<Rightarrow> combine_state \<Rightarrow> combine_state" where
  "write_element c values token_idx int4_idx j st =
     (if recv_phase c then
        (if is_pure_ep_mode c
         then st\<lparr>fp32_workspace := (fp32_workspace st)
                   (int token_idx * int (elements_per_token c)
                      + int int4_idx * int kNumElemsPerInt4 + int j
                    := values token_idx int4_idx j)\<rparr>
         else st\<lparr>combined_x := (combined_x st)
                   ((int token_idx * int (actual_num_int4_per_data c) + int int4_idx)
                      * int kNumElemsPerInt4 + int j
                    := float2bfloat16 (values token_idx int4_idx j))\<rparr>)
      else st)"

definition write_token ::
  "'a combine_config_scheme \<Rightarrow> (nat \<Rightarrow> nat \<Rightarrow> nat \<Rightarrow> fp) \<Rightarrow> nat \<Rightarrow> combine_state \<Rightarrow> combine_state" where
  "write_token c values token_idx =
     fold (\<lambda>int4_idx. fold (write_element c values token_idx int4_idx) [0..<kNumElemsPerInt4])
          [0..<actual_num_int4_per_data c]"

text \<open>
  Lines 1246-1397, entered after the wait and the grid sync of line 1233: the two device
  assertions, the guard on \<open>safe_num_topk\<close> (the copy of the parameter \<open>num_topk\<close>) and
  the token loop over all blocks and threads. With a value beyond \<open>kNumMaxTopk\<close> the
  loads of lines 1308-1311 store past the end of \<open>reg_topk_idx\<close> and
  \<open>reg_topk_weights\<close> as soon as a token is processed: the behaviour is undefined, and
  the model stops there with \<open>RegisterOverrun\<close>.
\<close>

definition combine_local ::
  "'a combine_config_scheme \<Rightarrow> (nat \<Rightarrow> int) \<Rightarrow> (nat \<Rightarrow> fp) \<Rightarrow> (int \<Rightarrow> fp) \<Rightarrow> (int \<Rightarrow> int)
     \<Rightarrow> (nat \<Rightarrow> int \<times> int) option \<Rightarrow> combine_state \<Rightarrow> fatal + combine_state" where
  "combine_local c topk_idx topk_weights x src_info layout_range st =
     (let safe_num_topk = num_topk c
      in if \<not> num_topk c \<le> 32 then Inl DeviceAssert
         else if \<not> actual_num_int4_per_data c \<le> num_threads c then Inl DeviceAssert
         else if int kNumMaxTopk < revalidate_num_topk safe_num_topk \<and> 0 < num_combined_tokens c
         then Inl RegisterOverrun
         else Inr (fold (write_token c
                           (combined_values c (revalidate_num_topk safe_num_topk) topk_idx
                              topk_weights x src_info layout_range))
                        [0..<num_combined_tokens c]
                        (st\<lparr>corruption_logged :=
                              (corruption_logged st \<or> is_corrupted safe_num_topk)\<rparr>)))"

text \<open>
  \<^verbatim>\<open>nvshmemx_float_sum_reduce_block\<close> over \<^verbatim>\<open>NVSHMEM_TEAM_WORLD\<close>: the element of
  every rank's workspace, added up. NVSHMEM fixes no order; the model adds in the order
  of the ranks.
\<close>

definition float_sum_reduce :: "nat \<Rightarrow> (nat \<Rightarrow> int \<Rightarrow> fp) \<Rightarrow> int \<Rightarrow> fp" where
  "float_sum_reduce n workspaces a = fold (\<lambda>r acc. fadd acc (workspaces r a)) [0..<n] (Finite 0)"

text \<open>
  Lines 1399-1525, Pure EP mode only: grid sync, the zeroing of the workspace by a rank
  that skipped the receive phase, grid sync, the assertions of block 0, the reduction of
  the token region over all ranks, grid sync, the conversion to bfloat16, grid sync.
  \<open>peers r\<close> is the workspace rank \<open>r\<close> brings to the collective; the rank's own is the
  one of its state.
\<close>

definition token_region :: "'a combine_config_scheme \<Rightarrow> int \<Rightarrow> bool" where
  "token_region c a = (0 \<le> a \<and> a < int (num_combined_tokens c) * int (elements_per_token c))"

definition own_workspace :: "'a combine_config_scheme \<Rightarrow> combine_state \<Rightarrow> int \<Rightarrow> fp" where
  "own_workspace c st a =
     (if \<not> recv_phase c \<and> token_region c a then Finite 0 else fp32_workspace st a)"

definition combine_pure_ep ::
  "'a combine_config_scheme \<Rightarrow> (nat \<Rightarrow> int \<Rightarrow> fp) \<Rightarrow> combine_state \<Rightarrow> fatal + combine_state" where
  "combine_pure_ep c peers st =
     (if \<not> (elements_per_token c > 0 \<and> num_combined_tokens c > 0) then Inl DeviceAssert
      else
        (let reduced = (\<lambda>a. if token_region c a
                            then float_sum_reduce (num_ranks c)
                                   (\<lambda>r. if r = rank c then own_workspace c st else peers r) a
                            else own_workspace c st a)
         in Inr (st\<lparr>fp32_workspace := reduced,
                    combined_x := (\<lambda>a. if token_region c a then float2bfloat16 (reduced a)
                                        else combined_x st a),
                    grid_syncs := grid_syncs st + 4\<rparr>)))"

text \<open>The reduce phase of one rank.\<close>

definition combine_reduce ::
  "'a combine_config_scheme \<Rightarrow> (nat \<Rightarrow> int) \<Rightarrow> (nat \<Rightarrow> fp) \<Rightarrow> (int \<Rightarrow> fp) \<Rightarrow> (int \<Rightarrow> int)
     \<Rightarrow> (nat \<Rightarrow> int \<times> int) option \<Rightarrow> (nat \<Rightarrow> int \<Rightarrow> fp) \<Rightarrow> combine_state \<Rightarrow> fatal + combine_state" where
  "combine_reduce c topk_idx topk_weights x src_info layout_range peers st =
     (case combine_local c topk_idx topk_weights x src_info layout_range st of
        Inl err \<Rightarrow> Inl err
      | Inr st' \<Rightarrow> if is_pure_ep_mode c then combine_pure_ep c peers st' else Inr st')"

text \<open>
  Following the spec's words: the received slot of one \<open>(expert, from_rank)\<close> pair whose
  \<open>src_info\<close> entry equals the token (the first one, within the capacity), the terms
  \<open>w\<^sub>t\<^sub>,\<^sub>k \<cdot> payload\<close> of the non-padding top-k entries whose expert this rank owns, and
  their sum.
\<close>

definition received_slot ::
  "'a combine_config_scheme \<Rightarrow> (int \<Rightarrow> int) \<Rightarrow> (nat \<Rightarrow> int \<times> int) \<Rightarrow> nat \<Rightarrow> nat \<Rightarrow> nat \<Rightarrow> int option" where
  "received_slot c src_info layout token_idx local_expert from_rank =
     (let num = fst (layout (local_expert * num_ranks c + from_rank));
          offset = snd (layout (local_expert * num_ranks c + from_rank));
          cap = num_max_dispatch_tokens_per_rank c;
          section = int local_expert * int (num_ranks c) * cap + int from_rank * cap
      in case filter (\<lambda>slot. offset + int slot < cap
                               \<and> src_info (section + offset + int slot) = int token_idx)
                [0..<nat num] of
           [] \<Rightarrow> None
         | slot # _ \<Rightarrow> Some (offset + int slot))"

definition local_terms ::
  "'a combine_config_scheme \<Rightarrow> int \<Rightarrow> (nat \<Rightarrow> int) \<Rightarrow> (nat \<Rightarrow> fp) \<Rightarrow> (int \<Rightarrow> fp) \<Rightarrow> (int \<Rightarrow> int)
     \<Rightarrow> (nat \<Rightarrow> int \<times> int) \<Rightarrow> nat \<Rightarrow> nat \<Rightarrow> nat \<Rightarrow> fp list" where
  "local_terms c K topk_idx topk_weights x src_info layout t int4_idx j =
     concat (map
       (\<lambda>k. if reg_topk_idx K topk_idx t k < 0
                \<or> nat (reg_topk_idx K topk_idx t k) div num_local_experts c \<noteq> rank c
             then []
             else concat (map
                    (\<lambda>from_rank.
                       case received_slot c src_info layout t
                              (nat (reg_topk_idx K topk_idx t k) mod num_local_experts c) from_rank of
                         None \<Rightarrow> []
                       | Some slot \<Rightarrow>
                           [fmul (load_x c x (nat (reg_topk_idx K topk_idx t k) mod num_local_experts c)
                                    from_rank slot int4_idx j)
                                 (reg_topk_weights K topk_weights t k)])
                    [0..<num_ranks c]))
       [0..<nat K])"

definition weighted_sum :: "fp list \<Rightarrow> fp" where
  "weighted_sum terms = foldl fadd (Finite 0) terms"



text \<open>The element a cell of the token region holds: token, chunk and lane of the address.\<close>

definition cell_value ::
  "'a combine_config_scheme \<Rightarrow> (nat \<Rightarrow> nat \<Rightarrow> nat \<Rightarrow> fp) \<Rightarrow> int \<Rightarrow> fp" where
  "cell_value c values a =
     values (nat a div elements_per_token c)
            ((nat a mod elements_per_token c) div kNumElemsPerInt4)
            (nat a mod kNumElemsPerInt4)"

definition cell_addr :: "'a combine_config_scheme \<Rightarrow> nat \<Rightarrow> nat \<Rightarrow> nat \<Rightarrow> int" where
  "cell_addr c t q j = int t * int (elements_per_token c) + int q * int kNumElemsPerInt4 + int j"

definition wrote ::
  "'a combine_config_scheme \<Rightarrow> (int \<Rightarrow> fp) \<Rightarrow> int set \<Rightarrow> combine_state \<Rightarrow> combine_state \<Rightarrow> bool" where
  "wrote c V A st st' =
     (grid_syncs st' = grid_syncs st \<and> corruption_logged st' = corruption_logged st
      \<and> (if is_pure_ep_mode c
         then fp32_workspace st' = (\<lambda>a. if a \<in> A then V a else fp32_workspace st a)
              \<and> combined_x st' = combined_x st
         else combined_x st' = (\<lambda>a. if a \<in> A then float2bfloat16 (V a) else combined_x st a)
              \<and> fp32_workspace st' = fp32_workspace st))"

definition token_cells :: "'a combine_config_scheme \<Rightarrow> nat \<Rightarrow> int set" where
  "token_cells c t =
     (\<Union>q \<in> set [0..<actual_num_int4_per_data c]. \<Union>j \<in> set [0..<kNumElemsPerInt4]. {cell_addr c t q j})"

text \<open>
  A combine launch on a single rank that owns the single expert: one token of 2048
  elements, top-1 routing, capacity 1; the host's grid of one block of 1024 threads.
\<close>

definition scenario_combine :: combine_config where
  "scenario_combine =
     \<lparr>num_tokens = 1, num_max_dispatch_tokens_per_rank = 1, num_topk = 1, num_experts = 1,
      rank = 0, num_ranks = 1, num_warp_groups = 1, num_warps_per_group = 32, phases = 3,
      kUseFP8 = False, kUseUE8M0 = False, kHidden = 2048,
      num_combined_tokens = 1, hidden = 2048, num_sms = 1, num_threads = 1024\<rparr>"

definition stale_combine_state :: combine_state where
  "stale_combine_state =
     \<lparr>combined_x = (\<lambda>_. Finite 1), fp32_workspace = (\<lambda>_. Finite 1), grid_syncs = 0,
      corruption_logged = False\<rparr>"

section \<open>ExpertSyncInfo in combine\<close>

text \<open>Lines 1105-1110: the two atomic additions after the flag of the send phase of combine.\<close>

definition update_received ::
  "(nat \<Rightarrow> int) option \<Rightarrow> nat \<Rightarrow> nat \<Rightarrow> int \<Rightarrow> (nat \<Rightarrow> int) option" where
  "update_received buf expert_idx r num_tokens_to_send =
     (case buf of
        None \<Rightarrow> None
      | Some words \<Rightarrow>
          (let words1 = snd (atomicAdd words (received_tokens_per_rank_addr expert_idx r)
                               num_tokens_to_send)
           in Some (snd (atomicAdd words1 (total_received_tokens_addr expert_idx)
                           num_tokens_to_send))))"

text \<open>The words of the structure of one expert, and of its two arrays.\<close>

definition in_sync_info :: "nat \<Rightarrow> nat \<Rightarrow> bool" where
  "in_sync_info expert_idx a =
     (expert_idx * sync_info_words \<le> a \<and> a < (expert_idx + 1) * sync_info_words)"

definition in_expected_tokens_per_rank :: "nat \<Rightarrow> nat \<Rightarrow> bool" where
  "in_expected_tokens_per_rank expert_idx a =
     (expert_idx * sync_info_words \<le> a \<and> a < expert_idx * sync_info_words + 8)"

definition in_received_tokens_per_rank :: "nat \<Rightarrow> nat \<Rightarrow> bool" where
  "in_received_tokens_per_rank expert_idx a =
     (expert_idx * sync_info_words + 8 \<le> a \<and> a < expert_idx * sync_info_words + 16)"

section \<open>Dispatch on all ranks\<close>

text \<open>
  The host wrapper of \<open>dispatch\<close> (lines 806-835) chooses the warp layout: the first
  \<open>wg\<close> in \<open>1..32\<close> that passes the test, else the initial \<open>(1, 32)\<close>.
  \<^verbatim>\<open>ceil_div\<close> comes from \<^verbatim>\<open>utils.cuh\<close>.
\<close>

definition ceil_div :: "nat \<Rightarrow> nat \<Rightarrow> nat" where
  "ceil_div a b = (a + b - 1) div b"

fun select_warps :: "nat \<Rightarrow> nat \<Rightarrow> nat \<Rightarrow> nat list \<Rightarrow> nat \<times> nat" where
  "select_warps min_warps_needed experts sms [] = (1, 32)"
| "select_warps min_warps_needed experts sms (wg # wgs) =
     (let wpg = 32 div wg
      in if wpg > 0 \<and> wg * wpg \<ge> min_warps_needed \<and> wg \<le> ceil_div experts sms
         then (wg, wpg)
         else select_warps min_warps_needed experts sms wgs)"

definition dispatch_launch :: "config \<Rightarrow> nat \<Rightarrow> config" where
  "dispatch_launch c num_device_sms =
     c\<lparr>num_warp_groups :=
         fst (select_warps (nat (num_topk c + 1)) (num_experts c) num_device_sms [1..<33]),
       num_warps_per_group :=
         snd (select_warps (nat (num_topk c + 1)) (num_experts c) num_device_sms [1..<33])\<rparr>"

text \<open>The launch on rank \<open>r\<close>, which holds \<open>tokens r\<close> tokens.\<close>

definition rank_config :: "config \<Rightarrow> nat \<Rightarrow> (nat \<Rightarrow> nat) \<Rightarrow> nat \<Rightarrow> config" where
  "rank_config c num_device_sms tokens r =
     (dispatch_launch c num_device_sms)\<lparr>rank := r, num_tokens := tokens r\<rparr>"

text \<open>The memory of one rank that a dispatch reads and writes.\<close>

record ('p, 's) rank_memory =
  send_mem :: "'p sender"
  rdma_recv_count_mem :: "nat \<Rightarrow> int"
  rdma_recv_x_mem :: "int \<Rightarrow> 'p message"
  recv_mem :: "('p, 's) receiver"

primrec map_fatal :: "('a \<Rightarrow> fatal + 'b) \<Rightarrow> 'a list \<Rightarrow> fatal + 'b list" where
  "map_fatal f [] = Inr []"
| "map_fatal f (a # as) =
     (case f a of
        Inl err \<Rightarrow> Inl err
      | Inr b \<Rightarrow> (case map_fatal f as of Inl err \<Rightarrow> Inl err | Inr bs \<Rightarrow> Inr (b # bs)))"

text \<open>
  A dispatch with both phases on every rank, as rank \<open>d\<close> sees it: every rank runs its
  send phase on its own batch (the outbox starts empty), the one-sided writes reach the
  rank, and the rank runs its receive phase on what arrived. The launch completes when no
  rank aborts.
\<close>

definition dispatch_all ::
  "config \<Rightarrow> nat \<Rightarrow> (nat \<Rightarrow> nat) \<Rightarrow> (nat \<Rightarrow> nat \<Rightarrow> int) \<Rightarrow> (nat \<Rightarrow> nat \<Rightarrow> 'p) \<Rightarrow> (nat \<Rightarrow> nat \<Rightarrow> int)
     \<Rightarrow> ('p \<Rightarrow> nat \<Rightarrow> 's) \<Rightarrow> (nat \<Rightarrow> ('p, 's) rank_memory) \<Rightarrow> nat \<Rightarrow> fatal + ('p, 's) rank_memory" where
  "dispatch_all c num_device_sms tokens topk_idx x num_recv_tokens_per_rank scale_of mem d =
     (case map_fatal
             (\<lambda>r. dispatch_send (rank_config c num_device_sms tokens r) (topk_idx r) (x r)
                     ((send_mem (mem r))\<lparr>outbox := []\<rparr>))
             [0..<num_ranks c] of
        Inl err \<Rightarrow> Inl err
      | Inr senders \<Rightarrow>
          (let ops = concat (map outbox senders);
               counts = fold (deliver_count d) ops (rdma_recv_count_mem (mem d));
               msgs = fold (deliver_put d) ops (rdma_recv_x_mem (mem d))
           in case dispatch_recv (rank_config c num_device_sms tokens d) (num_recv_tokens_per_rank d)
                     (\<lambda>cell i. counts cell) msgs scale_of (recv_mem (mem d)) of
                Inl err \<Rightarrow> Inl err
              | Inr received \<Rightarrow>
                  Inr \<lparr>send_mem = senders ! d, rdma_recv_count_mem = counts, rdma_recv_x_mem = msgs,
                       recv_mem = received\<rparr>))"

definition count_to :: "nat \<Rightarrow> nat \<Rightarrow> 'p remote_op \<Rightarrow> int" where
  "count_to d cell op =
     (case op of Put dst a m \<Rightarrow> 0 | AddCount dst a v \<Rightarrow> if dst = d \<and> a = cell then v else 0)"

text \<open>
  A dispatch on a single rank that owns the single expert: one token, routed to the
  expert, capacity 4.
\<close>

definition scenario_single :: config where
  "scenario_single =
     \<lparr>num_tokens = 1, num_max_dispatch_tokens_per_rank = 4, num_topk = 1, num_experts = 1,
      rank = 0, num_ranks = 1, num_warp_groups = 1, num_warps_per_group = 32, phases = 3,
      kUseFP8 = False, kUseUE8M0 = False, kHidden = 128\<rparr>"

definition fresh_memory :: "(unit, unit) rank_memory" where
  "fresh_memory =
     \<lparr>send_mem = fresh_sender, rdma_recv_count_mem = (\<lambda>_. 0),
      rdma_recv_x_mem = (\<lambda>_. \<lparr>src_idx = 0, payload = ()\<rparr>), recv_mem = fresh_receiver\<rparr>"

text \<open>
  Rank 24 of 32 sends its token 24 to expert 0; the \<^verbatim>\<open>ExpertSyncInfo\<close> array holds 32
  structures, all zero.
\<close>

definition scenario_rank24 :: config where
  "scenario_rank24 =
     \<lparr>num_tokens = 25, num_max_dispatch_tokens_per_rank = 4, num_topk = 1, num_experts = 32,
      rank = 24, num_ranks = 32, num_warp_groups = 1, num_warps_per_group = 32, phases = 3,
      kUseFP8 = False, kUseUE8M0 = False, kHidden = 128\<rparr>"

definition zeroed_sync_sender :: "unit sender" where
  "zeroed_sync_sender = fresh_sender\<lparr>expert_sync_info_buffer := Some (\<lambda>_. 0)\<rparr>"


lemma reserved_refl: "reserved idx 0 s s"
  by (simp add: reserved_def)

lemma reserved_trans:
  "reserved idx m s s' \<Longrightarrow> reserved idx n s' s'' \<Longrightarrow> reserved idx (m + n) s s''"
  by (auto simp: reserved_def fun_eq_iff)

lemma expected_entry_iff:
  "expected_entry c topk_idx e t k \<longleftrightarrow>
     dst_expert_idx c topk_idx t k = int e \<and> (is_pure_ep_mode c \<longrightarrow> t mod num_ranks c = rank c)"
  by (simp add: expected_entry_def Let_def)

lemma send_entry_skip:
  "\<not> expected_entry c topk_idx e t k \<Longrightarrow> send_entry c topk_idx x e t k s = Inr s"
  unfolding expected_entry_iff send_entry_def Let_def by auto

lemma send_entry_overflow:
  "expected_entry c topk_idx e t k \<Longrightarrow>
   atomic_counter_per_expert s (e * num_ranks c + rank c) \<ge> num_max_dispatch_tokens_per_rank c \<Longrightarrow>
   send_entry c topk_idx x e t k s = Inl SlotOverflow"
  unfolding expected_entry_iff send_entry_def Let_def by (simp add: atomicAdd_def)

lemma send_entry_reserve:
  "expected_entry c topk_idx e t k \<Longrightarrow>
   atomic_counter_per_expert s (e * num_ranks c + rank c) < num_max_dispatch_tokens_per_rank c \<Longrightarrow>
   \<exists>s'. send_entry c topk_idx x e t k s = Inr s' \<and> reserved (e * num_ranks c + rank c) 1 s s'"
  unfolding expected_entry_iff send_entry_def Let_def by (simp add: atomicAdd_def reserved_def is_put_def)

lemma reserved_counter:
  "reserved idx n s s' \<Longrightarrow> atomic_counter_per_expert s' idx = atomic_counter_per_expert s idx + int n"
  by (simp add: reserved_def)

lemma fold_fatal_reserve:
  assumes ok: "\<And>a s. a \<in> set as \<Longrightarrow>
                 w a = 0 \<or> atomic_counter_per_expert s idx + int (w a) \<le> S \<Longrightarrow>
                 \<exists>s'. f a s = Inr s' \<and> reserved idx (w a) s s'"
      and bad: "\<And>a s. a \<in> set as \<Longrightarrow> 0 < w a \<Longrightarrow>
                 atomic_counter_per_expert s idx + int (w a) > S \<Longrightarrow> f a s = Inl SlotOverflow"
  shows "(sum_list (map w as) = 0 \<or> atomic_counter_per_expert s idx + int (sum_list (map w as)) \<le> S
            \<longrightarrow> (\<exists>s'. fold_fatal f as s = Inr s' \<and> reserved idx (sum_list (map w as)) s s'))
       \<and> (0 < sum_list (map w as) \<and> atomic_counter_per_expert s idx + int (sum_list (map w as)) > S
            \<longrightarrow> fold_fatal f as s = Inl SlotOverflow)"
  using assms
proof (induction as arbitrary: s)
  case Nil
  then show ?case by (simp add: reserved_refl)
next
  case (Cons a as)
  let ?W = "sum_list (map w as)"
  let ?n = "atomic_counter_per_expert s idx"
  have IH: "\<And>s. (?W = 0 \<or> atomic_counter_per_expert s idx + int ?W \<le> S
            \<longrightarrow> (\<exists>s'. fold_fatal f as s = Inr s' \<and> reserved idx ?W s s'))
       \<and> (0 < ?W \<and> atomic_counter_per_expert s idx + int ?W > S
            \<longrightarrow> fold_fatal f as s = Inl SlotOverflow)"
    by (rule Cons.IH) (auto intro: Cons.prems)
  show ?case
  proof (cases "w a = 0 \<or> ?n + int (w a) \<le> S")
    case True
    then obtain s1 where s1: "f a s = Inr s1" "reserved idx (w a) s s1"
      using Cons.prems(1)[of a s] by auto
    have n1: "atomic_counter_per_expert s1 idx = ?n + int (w a)"
      using s1(2) by (rule reserved_counter)
    show ?thesis
    proof (intro conjI impI)
      assume "sum_list (map w (a # as)) = 0 \<or> ?n + int (sum_list (map w (a # as))) \<le> S"
      then have "?W = 0 \<or> atomic_counter_per_expert s1 idx + int ?W \<le> S"
        using n1 by auto
      then obtain s' where "fold_fatal f as s1 = Inr s'" "reserved idx ?W s1 s'"
        using IH[of s1] by auto
      then show "\<exists>s'. fold_fatal f (a # as) s = Inr s' \<and> reserved idx (sum_list (map w (a # as))) s s'"
        using s1 reserved_trans[of idx "w a" s s1 ?W s'] by auto
    next
      assume "0 < sum_list (map w (a # as)) \<and> ?n + int (sum_list (map w (a # as))) > S"
      then have "0 < ?W \<and> atomic_counter_per_expert s1 idx + int ?W > S"
        using n1 True by auto
      then have "fold_fatal f as s1 = Inl SlotOverflow" using IH[of s1] by auto
      then show "fold_fatal f (a # as) s = Inl SlotOverflow" using s1 by simp
    qed
  next
    case False
    then have "f a s = Inl SlotOverflow" using Cons.prems(2)[of a s] by auto
    then show ?thesis using False by auto
  qed
qed

lemma length_filter_sum_list:
  "length (filter P xs) = sum_list (map (\<lambda>x. if P x then 1 else 0) xs)"
  by (induction xs) auto

lemma send_token_reserve:
  fixes c topk_idx e t
  defines "idx \<equiv> e * num_ranks c + rank c"
  defines "n \<equiv> expected_of_token c topk_idx e t"
  shows "(n = 0 \<or> atomic_counter_per_expert s idx + int n \<le> num_max_dispatch_tokens_per_rank c
            \<longrightarrow> (\<exists>s'. send_token c topk_idx x e t s = Inr s' \<and> reserved idx n s s'))
       \<and> (0 < n \<and> atomic_counter_per_expert s idx + int n > num_max_dispatch_tokens_per_rank c
            \<longrightarrow> send_token c topk_idx x e t s = Inl SlotOverflow)"
  unfolding n_def expected_of_token_def length_filter_sum_list send_token_def idx_def
proof (rule fold_fatal_reserve, goal_cases)
  case (1 a s)
  then show ?case
    using send_entry_skip[of c topk_idx e t a x s] send_entry_reserve[of c topk_idx e t a s x]
    by (auto simp: reserved_refl)
next
  case (2 a s)
  then show ?case
    using send_entry_overflow[of c topk_idx e t a s x] by (auto split: if_splits)
qed

lemma send_tokens_reserve:
  fixes c topk_idx e
  defines "idx \<equiv> e * num_ranks c + rank c"
  defines "n \<equiv> sent_by_block c topk_idx e"
  shows "(n = 0 \<or> atomic_counter_per_expert s idx + int n \<le> num_max_dispatch_tokens_per_rank c
            \<longrightarrow> (\<exists>s'. send_tokens c topk_idx x e s = Inr s' \<and> reserved idx n s s'))
       \<and> (0 < n \<and> atomic_counter_per_expert s idx + int n > num_max_dispatch_tokens_per_rank c
            \<longrightarrow> send_tokens c topk_idx x e s = Inl SlotOverflow)"
  unfolding n_def sent_by_block_def send_tokens_def idx_def
proof (rule fold_fatal_reserve, goal_cases)
  case (1 a s)
  then show ?case using send_token_reserve[of c topk_idx e a s x] by blast
next
  case (2 a s)
  then show ?case using send_token_reserve[of c topk_idx e a s x] by blast
qed

lemma mod_between_neq:
  fixes t u p :: nat
  assumes "t < u" "u < t + p"
  shows "u mod p \<noteq> t mod p"
proof
  assume "u mod p = t mod p"
  then have "p dvd u - t" using assms(1) by (simp add: mod_eq_dvd_iff_nat)
  moreover have "0 < u - t" "u - t < p" using assms by auto
  ultimately show False using nat_dvd_not_less by blast
qed

lemma warp_tokens_filter:
  "0 < p \<Longrightarrow> warp_tokens t p n = filter (\<lambda>u. u mod p = t mod p) [t..<n]"
proof (induction t p n rule: warp_tokens.induct)
  case (1 t p n)
  show ?case
  proof (cases "t < n")
    case False
    then show ?thesis by (subst warp_tokens.simps) simp
  next
    case True
    have IH: "warp_tokens (t + p) p n = filter (\<lambda>u. u mod p = t mod p) [t + p..<n]"
      using "1.IH" True "1.prems" by simp
    have none: "filter (\<lambda>u. u mod p = t mod p) [Suc t..<min (t + p) n] = []"
      using mod_between_neq[of t _ p] by (auto simp: filter_empty_conv)
    have split: "[Suc t..<n] = [Suc t..<min (t + p) n] @ [min (t + p) n..<n]"
    proof -
      have "Suc t \<le> min (t + p) n" using True "1.prems" by simp
      moreover have "n = min (t + p) n + (n - min (t + p) n)" by simp
      ultimately show ?thesis using upt_add_eq_append[of "Suc t" "min (t + p) n" "n - min (t + p) n"]
        by simp
    qed
    have tail: "filter (\<lambda>u. u mod p = t mod p) [min (t + p) n..<n]
                 = filter (\<lambda>u. u mod p = t mod p) [t + p..<n]"
      by (cases "t + p \<le> n") (auto simp: min_def)
    have "filter (\<lambda>u. u mod p = t mod p) [t..<n]
            = t # filter (\<lambda>u. u mod p = t mod p) [Suc t..<n]"
      using True by (simp add: upt_conv_Cons)
    also have "\<dots> = t # filter (\<lambda>u. u mod p = t mod p) [t + p..<n]"
      by (subst split) (simp add: none tail del: upt_Suc)
    finally show ?thesis
      using True "1.prems" IH by (subst warp_tokens.simps) simp
  qed
qed

lemma mset_warp_tokens:
  assumes "m < p"
  shows "mset (warp_tokens m p n) = mset_set {u \<in> {0..<n}. u mod p = m}"
proof -
  have "mset (warp_tokens m p n) = filter_mset (\<lambda>u. u mod p = m) (mset_set {m..<n})"
    using assms by (simp add: warp_tokens_filter)
  also have "\<dots> = mset_set {u \<in> {m..<n}. u mod p = m}"
    by simp
  also have "{u \<in> {m..<n}. u mod p = m} = {u \<in> {0..<n}. u mod p = m}"
    using mod_less_eq_dividend[of _ p] by auto
  finally show ?thesis .
qed

lemma mset_warps_upto:
  "k \<le> p \<Longrightarrow>
   mset (concat (map (\<lambda>w. warp_tokens w p n) [0..<k])) = mset_set {u \<in> {0..<n}. u mod p < k}"
proof (induction k)
  case 0
  then show ?case by simp
next
  case (Suc k)
  have disj: "{u \<in> {0..<n}. u mod p < k} \<inter> {u \<in> {0..<n}. u mod p = k} = {}" by auto
  have un: "{u \<in> {0..<n}. u mod p < Suc k} = {u \<in> {0..<n}. u mod p < k} \<union> {u \<in> {0..<n}. u mod p = k}"
    by auto
  have "mset (concat (map (\<lambda>w. warp_tokens w p n) [0..<Suc k]))
          = mset (concat (map (\<lambda>w. warp_tokens w p n) [0..<k])) + mset (warp_tokens k p n)"
    by simp
  also have "\<dots> = mset_set {u \<in> {0..<n}. u mod p < k} + mset_set {u \<in> {0..<n}. u mod p = k}"
    using Suc by (simp add: mset_warp_tokens)
  also have "\<dots> = mset_set {u \<in> {0..<n}. u mod p < Suc k}"
    unfolding un by (rule mset_set_Union[symmetric]) (use disj in auto)
  finally show ?case .
qed

lemma mset_block_tokens:
  assumes "2 \<le> num_warps c"
  shows "mset (block_tokens c) = mset [0..<num_tokens c]"
proof -
  have "0 < num_warps c - 1" using assms by simp
  then have "{u \<in> {0..<num_tokens c}. u mod (num_warps c - 1) < num_warps c - 1} = {0..<num_tokens c}"
    by auto
  then show ?thesis
    unfolding block_tokens_def using mset_warps_upto[of "num_warps c - 1" "num_warps c - 1" "num_tokens c"]
    by simp
qed

lemma sent_by_block_expected:
  "2 \<le> num_warps c \<Longrightarrow> sent_by_block c topk_idx e = expected_count c topk_idx e"
proof -
  assume "2 \<le> num_warps c"
  then have "mset (map (expected_of_token c topk_idx e) (block_tokens c))
           = mset (map (expected_of_token c topk_idx e) [0..<num_tokens c])"
    using mset_block_tokens[of c] by (metis mset_map)
  then show ?thesis
    unfolding sent_by_block_def expected_count_def by (metis sum_mset_sum_list)
qed

lemma send_tokens_Inr:
  assumes "send_tokens c topk_idx x e s = Inr s'"
  shows "reserved (e * num_ranks c + rank c) (sent_by_block c topk_idx e) s s'"
proof -
  let ?n = "sent_by_block c topk_idx e"
  let ?idx = "e * num_ranks c + rank c"
  have "\<not> (0 < ?n \<and> atomic_counter_per_expert s ?idx + int ?n > num_max_dispatch_tokens_per_rank c)"
    using send_tokens_reserve[of c topk_idx e s x] assms by auto
  then have "?n = 0 \<or> atomic_counter_per_expert s ?idx + int ?n \<le> num_max_dispatch_tokens_per_rank c"
    by auto
  then show ?thesis using send_tokens_reserve[of c topk_idx e s x] assms by auto
qed

lemma send_tokens_Inl:
  assumes "send_tokens c topk_idx x e s = Inl err"
  shows "err = SlotOverflow \<and> 0 < sent_by_block c topk_idx e
         \<and> atomic_counter_per_expert s (e * num_ranks c + rank c) + int (sent_by_block c topk_idx e)
             > num_max_dispatch_tokens_per_rank c"
proof -
  let ?n = "sent_by_block c topk_idx e"
  let ?idx = "e * num_ranks c + rank c"
  have "\<not> (?n = 0 \<or> atomic_counter_per_expert s ?idx + int ?n \<le> num_max_dispatch_tokens_per_rank c)"
    using send_tokens_reserve[of c topk_idx e s x] assms by auto
  then have *: "0 < ?n \<and> atomic_counter_per_expert s ?idx + int ?n > num_max_dispatch_tokens_per_rank c"
    by auto
  then show ?thesis using send_tokens_reserve[of c topk_idx e s x] assms by auto
qed

lemma send_block_Inr:
  assumes "send_block c topk_idx x e s = Inr s'"
  shows "reserved (e * num_ranks c + rank c) (sent_by_block c topk_idx e) s s'"
  using assms send_tokens_Inr[of c topk_idx x e s]
  by (auto simp: send_block_def split: sum.splits if_splits)

lemma send_block_fits:
  assumes warps: "2 \<le> num_warps c"
      and zero: "0 \<le> atomic_counter_per_expert s (e * num_ranks c + rank c)"
      and fits: "atomic_counter_per_expert s (e * num_ranks c + rank c)
                   + int (expected_count c topk_idx e) \<le> num_max_dispatch_tokens_per_rank c"
  shows "\<exists>s'. send_block c topk_idx x e s = Inr s'"
proof -
  have n: "sent_by_block c topk_idx e = expected_count c topk_idx e"
    using warps by (rule sent_by_block_expected)
  obtain s' where s': "send_tokens c topk_idx x e s = Inr s'"
      "reserved (e * num_ranks c + rank c) (sent_by_block c topk_idx e) s s'"
    using send_tokens_reserve[of c topk_idx e s x] fits n by auto
  have "atomic_counter_per_expert s' (e * num_ranks c + rank c)
          = atomic_counter_per_expert s (e * num_ranks c + rank c) + int (expected_count c topk_idx e)"
    using reserved_counter[OF s'(2)] n by simp
  then show ?thesis using s'(1) zero by (simp add: send_block_def)
qed

lemma send_blocks_Inr:
  "fold_fatal (send_block c topk_idx x) es s = Inr s' \<Longrightarrow> blocks_done c topk_idx es s s'"
proof (induction es arbitrary: s)
  case Nil
  then show ?case by (simp add: blocks_done_def sent_total_def)
next
  case (Cons e es)
  from Cons.prems obtain s1 where s1: "send_block c topk_idx x e s = Inr s1"
      "fold_fatal (send_block c topk_idx x) es s1 = Inr s'"
    by (auto split: sum.splits)
  have r: "reserved (e * num_ranks c + rank c) (sent_by_block c topk_idx e) s s1"
    using s1(1) by (rule send_block_Inr)
  have d: "blocks_done c topk_idx es s1 s'" using s1(2) by (rule Cons.IH)
  show ?case
    using r d unfolding blocks_done_def reserved_def sent_total_def
    by (auto simp: fun_eq_iff)
qed

lemma fold_send_count_outbox:
  "outbox (fold (send_count c) es s) =
     outbox s @ map (\<lambda>e. count_op c e s) (filter (\<lambda>e. e < num_experts c) es)"
proof (induction es arbitrary: s)
  case Nil
  then show ?case by simp
next
  case (Cons e es)
  have same: "\<And>e'. count_op c e' (send_count c e s) = count_op c e' s"
    by (simp add: count_op_def actual_sent_count_def send_count_def)
  show ?case by (simp add: Cons.IH same) (simp add: send_count_def)
qed

lemma fold_send_count_fields:
  "atomic_counter_per_expert (fold (send_count c) es s) = atomic_counter_per_expert s"
  "slot_reservations (fold (send_count c) es s) = slot_reservations s"
  by (induction es arbitrary: s) (simp_all add: send_count_def)

lemma wait_count_now: "ld i \<noteq> 0 \<Longrightarrow> wait_count ld i = Inr (ld i, Suc i)"
  by (subst wait_count.simps) simp

lemma wait_count_Inr: "wait_count ld i = Inr (v, n) \<Longrightarrow> v \<noteq> 0 \<and> i < n"
proof (induction ld i rule: wait_count.induct)
  case (1 ld i)
  show ?case
  proof (cases "ld i \<noteq> 0")
    case True
    then show ?thesis using "1.prems" by (simp add: wait_count_now)
  next
    case False
    then show ?thesis
      using "1.prems" "1.IH" by (subst (asm) wait_count.simps) (auto split: if_splits)
  qed
qed

lemma wait_count_Inl: "wait_count ld i = Inl err \<Longrightarrow> err = CountTimeout"
proof (induction ld i rule: wait_count.induct)
  case (1 ld i)
  then show ?case
    by (subst (asm) (2) wait_count.simps) (auto split: if_splits)
qed

lemma recv_count_overflow_iff:
  assumes "wait_count (ld (pair_idx div num_ranks c * num_ranks c + pair_idx mod num_ranks c)) 0 = Inr (v, loads)"
  shows "recv_count c ld pair_idx r = Inl RecvOverflow \<longleftrightarrow>
         packed_recv_count r (pair_idx div num_ranks c * num_ranks c + pair_idx mod num_ranks c)
           + decode_count v > num_max_dispatch_tokens_per_rank c"
  using assms wait_count_Inr[OF assms]
  by (simp add: recv_count_def Let_def atomicAdd_def)

lemma send_entry_overflow_iff:
  "send_entry c topk_idx x e t k s = Inl SlotOverflow \<longleftrightarrow>
     expected_entry c topk_idx e t k
     \<and> fst (atomicAdd (atomic_counter_per_expert s) (e * num_ranks c + rank c) 1)
         \<ge> num_max_dispatch_tokens_per_rank c"
proof (cases "expected_entry c topk_idx e t k")
  case False
  then show ?thesis using send_entry_skip[of c topk_idx e t k x s] by simp
next
  case True
  show ?thesis
  proof (cases "atomic_counter_per_expert s (e * num_ranks c + rank c) \<ge> num_max_dispatch_tokens_per_rank c")
    case True
    then show ?thesis
      using \<open>expected_entry c topk_idx e t k\<close> send_entry_overflow[of c topk_idx e t k s x]
      by (simp add: atomicAdd_def)
  next
    case False
    then show ?thesis
      using \<open>expected_entry c topk_idx e t k\<close> send_entry_reserve[of c topk_idx e t k s x]
      by (auto simp: atomicAdd_def)
  qed
qed

lemma send_block_overflow_iff:
  "send_block c topk_idx x e s = Inl SlotOverflow \<longleftrightarrow>
     0 < sent_by_block c topk_idx e
     \<and> atomic_counter_per_expert s (e * num_ranks c + rank c) + int (sent_by_block c topk_idx e)
         > num_max_dispatch_tokens_per_rank c"
proof (cases "send_tokens c topk_idx x e s")
  case (Inl err)
  then show ?thesis using send_tokens_Inl[OF Inl] by (simp add: send_block_def)
next
  case (Inr s')
  have "\<not> (0 < sent_by_block c topk_idx e
     \<and> atomic_counter_per_expert s (e * num_ranks c + rank c) + int (sent_by_block c topk_idx e)
         > num_max_dispatch_tokens_per_rank c)"
    using send_tokens_reserve[of c topk_idx e s x] Inr by auto
  then show ?thesis using Inr by (auto simp: send_block_def)
qed

text \<open>
  Claim C1. Let \<open>n \<ge> 0\<close> be the final value of the sender's counter for \<open>(e, rank)\<close>.
  The block of expert \<open>e\<close> posts \<open>-n - 1\<close> to cell \<open>[e mod L][rank]\<close> of the
  \<open>rdma_recv_count\<close> of rank \<open>e div L\<close>. Added to a cell that held 0 it arrives as
  \<open>-n - 1\<close>, which is not 0 (and is \<open>-1\<close> when \<open>n = 0\<close>), so the receiver's spin
  ends at once and the block of that pair decodes \<open>num_recv_tokens = n\<close> (unless its
  capacity check aborts the launch).
\<close>
theorem count_handshake_encoding:
  assumes n: "0 \<le> atomic_counter_per_expert s (e * num_ranks c + rank c)"
      and zero: "rdma_recv_count (e mod num_local_experts c * num_ranks c + rank c) = 0"
      and src: "rank c < num_ranks c"
      and recv: "num_ranks c' = num_ranks c"
  shows "count_op c e s =
           AddCount (e div num_local_experts c) (e mod num_local_experts c * num_ranks c + rank c)
             (- atomic_counter_per_expert s (e * num_ranks c + rank c) - 1)
       \<and> deliver_count (e div num_local_experts c) (count_op c e s) rdma_recv_count
            (e mod num_local_experts c * num_ranks c + rank c)
           = - atomic_counter_per_expert s (e * num_ranks c + rank c) - 1
       \<and> deliver_count (e div num_local_experts c) (count_op c e s) rdma_recv_count
            (e mod num_local_experts c * num_ranks c + rank c) \<noteq> 0
       \<and> (atomic_counter_per_expert s (e * num_ranks c + rank c) = 0 \<longrightarrow>
            deliver_count (e div num_local_experts c) (count_op c e s) rdma_recv_count
              (e mod num_local_experts c * num_ranks c + rank c) = - 1)
       \<and> (recv_count c'
             (\<lambda>cell i. deliver_count (e div num_local_experts c) (count_op c e s) rdma_recv_count cell)
             (e mod num_local_experts c * num_ranks c + rank c) r = Inl RecvOverflow
           \<or> (\<exists>begin r'. recv_count c'
                 (\<lambda>cell i. deliver_count (e div num_local_experts c) (count_op c e s) rdma_recv_count cell)
                 (e mod num_local_experts c * num_ranks c + rank c) r
               = Inr (atomic_counter_per_expert s (e * num_ranks c + rank c), begin, r')))"
proof -
  let ?n = "atomic_counter_per_expert s (e * num_ranks c + rank c)"
  let ?cell = "e mod num_local_experts c * num_ranks c + rank c"
  let ?d = "e div num_local_experts c"
  have op: "count_op c e s = AddCount ?d ?cell (- ?n - 1)"
    using n by (simp add: count_op_def Let_def actual_sent_count_def encode_count_def)
  have dv: "deliver_count ?d (count_op c e s) rdma_recv_count ?cell = - ?n - 1"
    using zero by (simp add: op atomicAdd_def)
  have nz: "- ?n - 1 \<noteq> 0" using n by simp
  have cell: "?cell div num_ranks c' * num_ranks c' + ?cell mod num_ranks c' = ?cell"
    by simp
  have w: "wait_count (\<lambda>i. deliver_count ?d (count_op c e s) rdma_recv_count ?cell) 0
             = Inr (- ?n - 1, Suc 0)"
    using wait_count_now[of "\<lambda>i. deliver_count ?d (count_op c e s) rdma_recv_count ?cell" 0] nz dv
    by simp
  have rc: "recv_count c' (\<lambda>cell i. deliver_count ?d (count_op c e s) rdma_recv_count cell) ?cell r
              = Inl RecvOverflow
            \<or> (\<exists>begin r'. recv_count c' (\<lambda>cell i. deliver_count ?d (count_op c e s) rdma_recv_count cell) ?cell r
                  = Inr (?n, begin, r'))"
    unfolding recv_count_def Let_def cell using w nz
    by (simp add: decode_count_def)
  have nz': "deliver_count ?d (count_op c e s) rdma_recv_count ?cell \<noteq> 0"
    using dv nz by simp
  have z: "?n = 0 \<longrightarrow> deliver_count ?d (count_op c e s) rdma_recv_count ?cell = - 1"
    using dv by simp
  show ?thesis by (intro conjI) (rule op dv nz' z rc)+
qed


lemma recv_count_timeout:
  assumes "wait_count (ld (pair_idx div num_ranks c * num_ranks c + pair_idx mod num_ranks c)) 0 = Inl err"
  shows "recv_count c ld pair_idx r = Inl CountTimeout"
  using assms wait_count_Inl[OF assms] by (simp add: recv_count_def Let_def)

text \<open>
  Claim C4. The capacity assertions of dispatch fire exactly on overflow. In the send
  loop, an entry aborts with the slot overflow exactly when it passes the three guards
  and the slot its \<^verbatim>\<open>atomicAdd\<close> returns is at least
  \<open>num_max_dispatch_tokens_per_rank\<close>; the send loop of a whole block aborts with it
  exactly when the block sends at least one message and the counter it starts from plus
  the number of its sends exceeds the capacity. On the receiver, once the count has
  arrived, the receive overflow fires exactly when \<open>recv_token_begin_idx + n\<close> exceeds
  the capacity (a count that never arrives is the timeout, not the overflow). When the
  counter starts at zero and the block's traffic is at most the capacity, and when
  \<open>packed_recv_count\<close> starts at zero and the posted count is between zero and the
  capacity, neither assertion fires.
\<close>

theorem capacity_assertions:
  "(send_entry c topk_idx x e t k s = Inl SlotOverflow \<longleftrightarrow>
      expected_entry c topk_idx e t k
      \<and> fst (atomicAdd (atomic_counter_per_expert s) (e * num_ranks c + rank c) 1)
          \<ge> num_max_dispatch_tokens_per_rank c)
   \<and> (send_block c topk_idx x e s = Inl SlotOverflow \<longleftrightarrow>
        0 < sent_by_block c topk_idx e
        \<and> atomic_counter_per_expert s (e * num_ranks c + rank c) + int (sent_by_block c topk_idx e)
            > num_max_dispatch_tokens_per_rank c)
   \<and> (\<forall>v loads. wait_count (ld (pair_idx div num_ranks c * num_ranks c + pair_idx mod num_ranks c)) 0
                   = Inr (v, loads) \<longrightarrow>
        (recv_count c ld pair_idx r = Inl RecvOverflow \<longleftrightarrow>
           fst (atomicAdd (packed_recv_count r)
                  (pair_idx div num_ranks c * num_ranks c + pair_idx mod num_ranks c) (decode_count v))
             + decode_count v > num_max_dispatch_tokens_per_rank c))
   \<and> (\<forall>err. wait_count (ld (pair_idx div num_ranks c * num_ranks c + pair_idx mod num_ranks c)) 0
                   = Inl err \<longrightarrow> recv_count c ld pair_idx r = Inl CountTimeout)
   \<and> (atomic_counter_per_expert s (e * num_ranks c + rank c) = 0
        \<and> int (sent_by_block c topk_idx e) \<le> num_max_dispatch_tokens_per_rank c
        \<longrightarrow> send_block c topk_idx x e s \<noteq> Inl SlotOverflow)
   \<and> (\<forall>n loads. packed_recv_count r (pair_idx div num_ranks c * num_ranks c + pair_idx mod num_ranks c) = 0
        \<and> 0 \<le> n \<and> n \<le> num_max_dispatch_tokens_per_rank c
        \<and> wait_count (ld (pair_idx div num_ranks c * num_ranks c + pair_idx mod num_ranks c)) 0
             = Inr (encode_count n, loads)
        \<longrightarrow> recv_count c ld pair_idx r \<noteq> Inl RecvOverflow)"
proof (intro conjI allI impI)
  show "send_entry c topk_idx x e t k s = Inl SlotOverflow \<longleftrightarrow>
      expected_entry c topk_idx e t k
      \<and> fst (atomicAdd (atomic_counter_per_expert s) (e * num_ranks c + rank c) 1)
          \<ge> num_max_dispatch_tokens_per_rank c"
    by (rule send_entry_overflow_iff)
next
  show "send_block c topk_idx x e s = Inl SlotOverflow \<longleftrightarrow>
        0 < sent_by_block c topk_idx e
        \<and> atomic_counter_per_expert s (e * num_ranks c + rank c) + int (sent_by_block c topk_idx e)
            > num_max_dispatch_tokens_per_rank c"
    by (rule send_block_overflow_iff)
next
  fix v loads
  assume "wait_count (ld (pair_idx div num_ranks c * num_ranks c + pair_idx mod num_ranks c)) 0
            = Inr (v, loads)"
  then show "recv_count c ld pair_idx r = Inl RecvOverflow \<longleftrightarrow>
           fst (atomicAdd (packed_recv_count r)
                  (pair_idx div num_ranks c * num_ranks c + pair_idx mod num_ranks c) (decode_count v))
             + decode_count v > num_max_dispatch_tokens_per_rank c"
    using recv_count_overflow_iff[of ld pair_idx c v loads r] by (simp add: atomicAdd_def)
next
  fix err
  assume "wait_count (ld (pair_idx div num_ranks c * num_ranks c + pair_idx mod num_ranks c)) 0 = Inl err"
  then show "recv_count c ld pair_idx r = Inl CountTimeout"
    by (rule recv_count_timeout)
next
  assume "atomic_counter_per_expert s (e * num_ranks c + rank c) = 0
        \<and> int (sent_by_block c topk_idx e) \<le> num_max_dispatch_tokens_per_rank c"
  then show "send_block c topk_idx x e s \<noteq> Inl SlotOverflow"
    by (simp add: send_block_overflow_iff)
next
  fix n loads
  assume "packed_recv_count r (pair_idx div num_ranks c * num_ranks c + pair_idx mod num_ranks c) = 0
        \<and> 0 \<le> n \<and> n \<le> num_max_dispatch_tokens_per_rank c
        \<and> wait_count (ld (pair_idx div num_ranks c * num_ranks c + pair_idx mod num_ranks c)) 0
             = Inr (encode_count n, loads)"
  then show "recv_count c ld pair_idx r \<noteq> Inl RecvOverflow"
    using recv_count_overflow_iff[of ld pair_idx c "encode_count n" loads r]
    by (simp add: encode_count_def decode_count_def)
qed

lemma fold_fatal_const:
  "(\<And>a. a \<in> set as \<Longrightarrow> f a s = Inr s) \<Longrightarrow> fold_fatal f as s = Inr s"
  by (induction as) simp_all

text \<open>
  Claim C10. When \<open>num_recv_tokens_per_rank[rank]\<close> is zero, the receive phase of the
  whole grid returns its state as it found it: \<open>packed_recv_x\<close>,
  \<open>packed_recv_x_scales\<close>, \<open>packed_recv_src_info\<close>, \<open>packed_recv_layout_range\<close>,
  \<open>packed_recv_count\<close> and \<open>cumulative_local_expert_recv_stats\<close> are unchanged and
  \<open>rdma_recv_count\<close> was never loaded (\<open>count_polls\<close> is unchanged).
\<close>

theorem recv_skipped_without_tokens:
  assumes "num_recv_tokens_per_rank (rank c) = 0"
  shows "dispatch_recv c num_recv_tokens_per_rank ld rdma_recv_x scale_of r = Inr r"
proof -
  have "recv_block c num_recv_tokens_per_rank ld rdma_recv_x scale_of b r = Inr r" for b
    using assms by (simp add: recv_block_def)
  then show ?thesis by (simp add: dispatch_recv_def fold_fatal_const)
qed

lemma dispatch_send_Inr:
  assumes "dispatch_send c topk_idx x s = Inr s'" "send_phase c"
  shows "\<exists>s1 ps. (\<forall>i. atomic_counter_per_expert s1 i
                      = atomic_counter_per_expert s i + int (sent_total c topk_idx [0..<num_experts c] i))
          \<and> (\<forall>i. slot_reservations s1 i
                      = slot_reservations s i + sent_total c topk_idx [0..<num_experts c] i)
          \<and> atomic_counter_per_expert s' = atomic_counter_per_expert s1
          \<and> slot_reservations s' = slot_reservations s1
          \<and> list_all is_put ps
          \<and> outbox s' = outbox s @ ps @ map (\<lambda>e. count_op c e s1) [0..<num_experts c]"
proof -
  let ?s0 = "s\<lparr>expert_sync_info_buffer := clear_sync_info c (expert_sync_info_buffer s)\<rparr>"
  from assms obtain s1 where s1: "fold_fatal (send_block c topk_idx x) [0..<num_experts c] ?s0 = Inr s1"
      and s': "s' = fold (send_count c) [0..<num_experts c] s1"
    by (auto simp: dispatch_send_def split: sum.splits)
  have d: "blocks_done c topk_idx [0..<num_experts c] ?s0 s1"
    using s1 by (rule send_blocks_Inr)
  then obtain ps where ps: "outbox s1 = outbox s @ ps" "list_all is_put ps"
    by (auto simp: blocks_done_def)
  have f: "filter (\<lambda>e. e < num_experts c) [0..<num_experts c] = [0..<num_experts c]"
    by (simp add: filter_id_conv)
  have "outbox s' = outbox s @ ps @ map (\<lambda>e. count_op c e s1) [0..<num_experts c]"
    unfolding s' fold_send_count_outbox f using ps by simp
  then show ?thesis
    using d ps unfolding s' by (intro exI[of _ s1] exI[of _ ps]) (simp add: blocks_done_def fold_send_count_fields)
qed

text \<open>
  Claim C9. Every count the send phase of a rank posts is at most \<open>-1\<close>, and what the
  receiver decodes from it is at least zero: in Pure EP mode whatever the counters held
  (a negative read is clamped to zero), otherwise when no counter was negative at the
  start (the counters are only incremented). The kernel does post one count for every
  expert, to cell \<open>[e mod L][rank]\<close> of rank \<open>e div L\<close>.
\<close>

theorem posted_counts_negative:
  assumes run: "dispatch_send c topk_idx x s = Inr s'"
      and start: "is_pure_ep_mode c \<or> (\<forall>i. 0 \<le> atomic_counter_per_expert s i)"
      and fresh: "outbox s = []"
  shows "(\<forall>dst a v. AddCount dst a v \<in> set (outbox s') \<longrightarrow> v \<le> - 1 \<and> 0 \<le> decode_count v)
       \<and> (send_phase c \<longrightarrow>
            (\<forall>e < num_experts c.
               AddCount (e div num_local_experts c) (e mod num_local_experts c * num_ranks c + rank c)
                 (encode_count (actual_sent_count c e s')) \<in> set (outbox s')))"
proof (cases "send_phase c")
  case False
  then have "outbox s' = outbox s" using run by (auto simp: dispatch_send_def Let_def)
  then show ?thesis using fresh False by simp
next
  case True
  from dispatch_send_Inr[OF run True] obtain s1 ps where
      ctr: "\<forall>i. atomic_counter_per_expert s1 i
                      = atomic_counter_per_expert s i + int (sent_total c topk_idx [0..<num_experts c] i)"
      and same: "atomic_counter_per_expert s' = atomic_counter_per_expert s1"
      and puts: "list_all is_put ps"
      and out: "outbox s' = outbox s @ ps @ map (\<lambda>e. count_op c e s1) [0..<num_experts c]"
    by blast
  have nonneg: "0 \<le> actual_sent_count c e s1" for e
  proof (cases "is_pure_ep_mode c")
    case True
    then show ?thesis by (simp add: actual_sent_count_def Let_def)
  next
    case False
    then have "0 \<le> atomic_counter_per_expert s (e * num_ranks c + rank c)" using start by blast
    moreover have "atomic_counter_per_expert s1 (e * num_ranks c + rank c)
          = atomic_counter_per_expert s (e * num_ranks c + rank c)
            + int (sent_total c topk_idx [0..<num_experts c] (e * num_ranks c + rank c))"
      using ctr by blast
    ultimately show ?thesis using False by (simp add: actual_sent_count_def Let_def)
  qed
  have act: "actual_sent_count c e s' = actual_sent_count c e s1" for e
    using same by (simp add: actual_sent_count_def)
  have noput: "AddCount dst a v \<notin> set ps" for dst a v
    using puts by (auto simp: list_all_iff is_put_def)
  have a: "\<forall>dst a v. AddCount dst a v \<in> set (outbox s') \<longrightarrow> v \<le> - 1 \<and> 0 \<le> decode_count v"
  proof (intro allI impI)
    fix dst a v
    assume "AddCount dst a v \<in> set (outbox s')"
    then obtain e where "AddCount dst a v = count_op c e s1"
      using out fresh noput by auto
    then have "v = encode_count (actual_sent_count c e s1)"
      by (simp add: count_op_def Let_def)
    then show "v \<le> - 1 \<and> 0 \<le> decode_count v"
      using nonneg[of e] by (simp add: encode_count_def decode_count_def)
  qed
  have b: "\<forall>e < num_experts c.
               AddCount (e div num_local_experts c) (e mod num_local_experts c * num_ranks c + rank c)
                 (encode_count (actual_sent_count c e s')) \<in> set (outbox s')"
  proof (intro allI impI)
    fix e assume "e < num_experts c"
    then have "count_op c e s1 \<in> set (outbox s')" using out by simp
    then show "AddCount (e div num_local_experts c) (e mod num_local_experts c * num_ranks c + rank c)
                 (encode_count (actual_sent_count c e s')) \<in> set (outbox s')"
      by (simp add: count_op_def Let_def act)
  qed
  show ?thesis using a b by simp
qed

lemma reserved_other:
  "reserved idx n s s' \<Longrightarrow> i \<noteq> idx \<Longrightarrow> atomic_counter_per_expert s' i = atomic_counter_per_expert s i"
  by (simp add: reserved_def)

lemma send_blocks_fit:
  assumes "2 \<le> num_warps c" "0 < num_ranks c" "distinct es"
      and "\<forall>e \<in> set es. 0 \<le> atomic_counter_per_expert s (e * num_ranks c + rank c)
             \<and> atomic_counter_per_expert s (e * num_ranks c + rank c)
                  + int (expected_count c topk_idx e) \<le> num_max_dispatch_tokens_per_rank c"
  shows "\<exists>s'. fold_fatal (send_block c topk_idx x) es s = Inr s'"
  using assms(3,4)
proof (induction es arbitrary: s)
  case Nil
  then show ?case by simp
next
  case (Cons e es)
  obtain s1 where s1: "send_block c topk_idx x e s = Inr s1"
    using send_block_fits[of c s e topk_idx x] assms(1) Cons.prems(2) by auto
  have r: "reserved (e * num_ranks c + rank c) (sent_by_block c topk_idx e) s s1"
    using s1 by (rule send_block_Inr)
  have "\<forall>e' \<in> set es. atomic_counter_per_expert s1 (e' * num_ranks c + rank c)
                        = atomic_counter_per_expert s (e' * num_ranks c + rank c)"
  proof
    fix e' assume "e' \<in> set es"
    then have "e' \<noteq> e" using Cons.prems(1) by auto
    then have "e' * num_ranks c + rank c \<noteq> e * num_ranks c + rank c"
      using assms(2) by simp
    then show "atomic_counter_per_expert s1 (e' * num_ranks c + rank c)
                        = atomic_counter_per_expert s (e' * num_ranks c + rank c)"
      using reserved_other[OF r] by simp
  qed
  then have "\<exists>s'. fold_fatal (send_block c topk_idx x) es s1 = Inr s'"
    using Cons.IH[of s1] Cons.prems by simp
  then show ?case using s1 by simp
qed

lemma dispatch_send_fits:
  assumes "2 \<le> num_warps c" "0 < num_ranks c"
      and "\<forall>e < num_experts c. 0 \<le> atomic_counter_per_expert s (e * num_ranks c + rank c)
             \<and> atomic_counter_per_expert s (e * num_ranks c + rank c)
                  + int (expected_count c topk_idx e) \<le> num_max_dispatch_tokens_per_rank c"
  shows "\<exists>s'. dispatch_send c topk_idx x s = Inr s'"
proof -
  have "\<exists>s'. fold_fatal (send_block c topk_idx x) [0..<num_experts c]
                (s\<lparr>expert_sync_info_buffer := clear_sync_info c (expert_sync_info_buffer s)\<rparr>) = Inr s'"
    using assms by (intro send_blocks_fit) auto
  then show ?thesis by (auto simp: dispatch_send_def Let_def)
qed

text \<open>Scenario S4 on rank 1, nothing sent to expert 2: the count arrives as \<open>-1\<close>.\<close>

theorem count_handshake_encoding_witness:
  "count_op (scenario_S4 1) 2 fresh_sender = AddCount 2 1 (- 1)
   \<and> deliver_count 2 (count_op (scenario_S4 1) 2 fresh_sender) (\<lambda>_. 0) 1 = - 1"
proof -
  have h1: "0 \<le> atomic_counter_per_expert fresh_sender (2 * num_ranks (scenario_S4 1) + rank (scenario_S4 1))"
    by (simp add: fresh_sender_def)
  have h2: "(\<lambda>_. 0 :: int) (2 mod num_local_experts (scenario_S4 1) * num_ranks (scenario_S4 1) + rank (scenario_S4 1)) = 0"
    by simp
  have h3: "rank (scenario_S4 1) < num_ranks (scenario_S4 1)"
    by (simp add: scenario_S4_def)
  have h4: "num_ranks (scenario_S4 2) = num_ranks (scenario_S4 1)"
    by (simp add: scenario_S4_def)
  have v: "num_local_experts (scenario_S4 r) = 1" "num_ranks (scenario_S4 r) = 4" "rank (scenario_S4 r) = r"
       "atomic_counter_per_expert fresh_sender = (\<lambda>_. 0)" for r
    by (simp_all add: scenario_S4_def num_local_experts_def fresh_sender_def)
  show ?thesis
    using count_handshake_encoding[of fresh_sender 2 "scenario_S4 1" "\<lambda>_. 0" "scenario_S4 2" fresh_receiver,
            OF h1 h2 h3 h4]
    by (simp add: v atomicAdd_def)
qed


text \<open>
  Scenario S3 overflows on the sender; the single message of scenario S4 overflows neither
  on the sender nor on the receiver.
\<close>

theorem capacity_assertions_witness:
  "send_block scenario_S3 (\<lambda>_. 0) (\<lambda>_. ()) 0 fresh_sender = Inl SlotOverflow
   \<and> send_block (scenario_S4 1) topk_S4 (\<lambda>_. ()) 2 fresh_sender \<noteq> Inl SlotOverflow
   \<and> recv_count (scenario_S4 2) (\<lambda>cell i. - 2) 1 fresh_receiver \<noteq> Inl RecvOverflow"
proof -
  have n3: "sent_by_block scenario_S3 (\<lambda>_. 0) 0 = 3" by code_simp
  have n4: "sent_by_block (scenario_S4 (Suc 0)) topk_S4 2 = Suc 0" by code_simp
  have w: "wait_count (\<lambda>i. - 2) 0 = Inr (encode_count 1, Suc 0)"
    by (simp add: wait_count_now encode_count_def)
  have f: "atomic_counter_per_expert fresh_sender i = 0" "packed_recv_count fresh_receiver j = 0" for i j
    by (simp_all add: fresh_sender_def fresh_receiver_def)
  have m: "num_max_dispatch_tokens_per_rank scenario_S3 = 2"
          "num_max_dispatch_tokens_per_rank (scenario_S4 r) = 4" for r
    by (simp_all add: scenario_S3_def scenario_S4_def)
  have a: "send_block scenario_S3 (\<lambda>_. 0) (\<lambda>_. ()) 0 fresh_sender = Inl SlotOverflow"
    using capacity_assertions[of scenario_S3 "\<lambda>_. 0" "\<lambda>_. ()" 0 0 0 fresh_sender "\<lambda>cell i. 0" 0 fresh_receiver,
            THEN conjunct2, THEN conjunct1]
    by (simp add: n3 f m)
  have b: "send_block (scenario_S4 1) topk_S4 (\<lambda>_. ()) 2 fresh_sender \<noteq> Inl SlotOverflow"
    using capacity_assertions[of "scenario_S4 1" topk_S4 "\<lambda>_. ()" 2 0 0 fresh_sender "\<lambda>cell i. 0" 0 fresh_receiver,
            THEN conjunct2, THEN conjunct1]
    by (simp add: n4 f m)
  have c: "recv_count (scenario_S4 2) (\<lambda>cell i. - 2) 1 fresh_receiver \<noteq> Inl RecvOverflow"
    using capacity_assertions[of "scenario_S4 2" topk_S4 "\<lambda>_. ()" 2 0 0 fresh_sender "\<lambda>cell i. - 2" 1 fresh_receiver,
            THEN conjunct2, THEN conjunct2, THEN conjunct2, THEN conjunct2, THEN conjunct2,
            THEN spec, THEN spec, of 1 "Suc 0"] w
    by (simp add: f m)
  show ?thesis using a b c by simp
qed

text \<open>Scenario S4 on rank 0 with \<open>num_recv_tokens_per_rank\<close> all zero.\<close>

theorem recv_skipped_without_tokens_witness:
  "dispatch_recv (scenario_S4 0) (\<lambda>_. 0) (\<lambda>cell i. - 1) (\<lambda>_. \<lparr>src_idx = 0, payload = ()\<rparr>)
     (\<lambda>_ _. ()) fresh_receiver = Inr fresh_receiver"
  using recv_skipped_without_tokens[of "\<lambda>_. 0" "scenario_S4 0"] by simp

text \<open>Scenario S2 on rank 0: the send phase completes and posts \<open>-1\<close> for expert 2.\<close>

theorem posted_counts_negative_witness:
  "\<exists>s'. dispatch_send (scenario_S2 0) (\<lambda>_. - 1) (\<lambda>_. ()) fresh_sender = Inr s'
        \<and> AddCount 1 0 (- 1) \<in> set (outbox s')
        \<and> list_all (\<lambda>op. case op of AddCount dst a v \<Rightarrow> v \<le> - 1 | Put dst a m \<Rightarrow> True) (outbox s')"
proof -
  have none: "expected_count (scenario_S2 0) (\<lambda>_. - 1) e = 0" for e
    by (simp add: expected_count_def expected_of_token_def expected_entry_def dst_expert_idx_def
          static_cast_int_def)
  obtain s' where run: "dispatch_send (scenario_S2 0) (\<lambda>_. - 1) (\<lambda>_. ()) fresh_sender = Inr s'"
    using dispatch_send_fits[of "scenario_S2 0" fresh_sender "\<lambda>_. - 1" "\<lambda>_. ()"] none
    by (auto simp: scenario_S2_def num_warps_def fresh_sender_def)
  have pure: "is_pure_ep_mode (scenario_S2 0)"
    by (simp add: is_pure_ep_mode_def num_local_experts_def scenario_S2_def)
  have fresh: "outbox fresh_sender = []" by (simp add: fresh_sender_def)
  note inst = posted_counts_negative[OF run disjI1[OF pure] fresh]
  have sp: "send_phase (scenario_S2 0)" by (simp add: send_phase_def scenario_S2_def)
  have ctr: "actual_sent_count (scenario_S2 0) 2 s' = 0"
  proof -
    obtain s1 :: "unit sender" where "\<forall>i. atomic_counter_per_expert s1 i
                      = atomic_counter_per_expert fresh_sender i
                        + int (sent_total (scenario_S2 0) (\<lambda>_. - 1) [0..<num_experts (scenario_S2 0)] i)"
        "atomic_counter_per_expert s' = atomic_counter_per_expert s1"
      using dispatch_send_Inr[OF run sp] by blast
    moreover have "sent_by_block (scenario_S2 0) (\<lambda>_. - 1) e = 0" for e
      using sent_by_block_expected[of "scenario_S2 0" "\<lambda>_. - 1" e] none
      by (simp add: num_warps_def scenario_S2_def)
    then have "sent_total (scenario_S2 0) (\<lambda>_. - 1) es i = 0" for es i
      by (auto simp: sent_total_def)
    ultimately show ?thesis
      by (simp add: actual_sent_count_def Let_def fresh_sender_def)
  qed
  have "AddCount (2 div num_local_experts (scenario_S2 0))
          (2 mod num_local_experts (scenario_S2 0) * num_ranks (scenario_S2 0) + rank (scenario_S2 0))
          (encode_count (actual_sent_count (scenario_S2 0) 2 s')) \<in> set (outbox s')"
    using inst sp by (simp add: scenario_S2_def)
  moreover have "num_local_experts (scenario_S2 0) = 2" "num_ranks (scenario_S2 0) = 2" "rank (scenario_S2 0) = 0"
    by (simp_all add: num_local_experts_def scenario_S2_def)
  ultimately have a: "AddCount 1 0 (- 1) \<in> set (outbox s')"
    by (simp add: ctr encode_count_def)
  have b: "list_all (\<lambda>op. case op of AddCount dst a v \<Rightarrow> v \<le> - 1 | Put dst a m \<Rightarrow> True) (outbox s')"
    using inst by (auto simp: list_all_iff split: remote_op.splits)
  show ?thesis using run a b by blast
qed

lemma find_slot_filter:
  "find_slot cap src_info section offset t slots =
     (case filter (\<lambda>slot. offset + int slot < cap \<and> src_info (section + offset + int slot) = int t) slots of
        [] \<Rightarrow> None
      | slot # _ \<Rightarrow> Some (offset + int slot))"
  by (induction slots) (auto simp: Let_def add.assoc)

lemma fold_foldl_concat:
  "fold (\<lambda>a acc. foldl f acc (g a)) as acc = foldl f acc (concat (map g as))"
  by (induction as arbitrary: acc) simp_all

lemma accumulate_rank_terms:
  "accumulate_rank c x src_info layout t int4_idx j w e_local from_rank acc =
     foldl fadd acc
       (case received_slot c src_info layout t e_local from_rank of
          None \<Rightarrow> []
        | Some slot \<Rightarrow> [fmul (load_x c x e_local from_rank slot int4_idx j) w])"
  unfolding accumulate_rank_def received_slot_def Let_def unpack2_def find_slot_filter
  by (simp split: list.splits)

lemma accumulate_entry_terms:
  "accumulate_entry c x src_info (Some layout) t int4_idx j e w acc =
     foldl fadd acc
       (if e < 0 \<or> nat e div num_local_experts c \<noteq> rank c then []
        else concat (map
               (\<lambda>from_rank.
                  case received_slot c src_info layout t (nat e mod num_local_experts c) from_rank of
                    None \<Rightarrow> []
                  | Some slot \<Rightarrow> [fmul (load_x c x (nat e mod num_local_experts c) from_rank slot int4_idx j) w])
               [0..<num_ranks c]))"
proof -
  have "fold (accumulate_rank c x src_info layout t int4_idx j w e_local) rs acc =
        foldl fadd acc (concat (map
               (\<lambda>from_rank.
                  case received_slot c src_info layout t e_local from_rank of
                    None \<Rightarrow> []
                  | Some slot \<Rightarrow> [fmul (load_x c x e_local from_rank slot int4_idx j) w]) rs))"
    for e_local rs
    using fold_foldl_concat[of fadd
            "\<lambda>from_rank. case received_slot c src_info layout t e_local from_rank of
                    None \<Rightarrow> []
                  | Some slot \<Rightarrow> [fmul (load_x c x e_local from_rank slot int4_idx j) w]" rs acc]
    by (simp add: accumulate_rank_terms[abs_def])
  then show ?thesis
    by (simp add: accumulate_entry_def Let_def)
qed

lemma combined_values_terms:
  "combined_values c K topk_idx topk_weights x src_info (Some layout) t int4_idx j =
     weighted_sum (local_terms c K topk_idx topk_weights x src_info layout t int4_idx j)"
  unfolding combined_values_def weighted_sum_def local_terms_def
  using fold_foldl_concat[of fadd _ "[0..<nat K]" "Finite 0"]
  by (simp add: accumulate_entry_terms[abs_def])



lemma wrote_refl: "wrote c V {} st st"
  by (simp add: wrote_def)

lemma wrote_trans: "wrote c V A st st' \<Longrightarrow> wrote c V B st' st'' \<Longrightarrow> wrote c V (A \<union> B) st st''"
  by (auto simp: wrote_def fun_eq_iff)

lemma wrote_fold:
  assumes "\<And>i st. i \<in> set is \<Longrightarrow> wrote c V (S i) st (f i st)"
  shows "wrote c V (\<Union>i \<in> set is. S i) st (fold f is st)"
  using assms
proof (induction "is" arbitrary: st)
  case Nil
  then show ?case by (simp add: wrote_refl)
next
  case (Cons i "is")
  have "wrote c V (S i \<union> (\<Union>i \<in> set is. S i)) st (fold f is (f i st))"
    by (rule wrote_trans[OF Cons.prems[of i st] Cons.IH]) (simp_all add: Cons.prems)
  then show ?case by simp
qed

lemma cell_value_addr:
  assumes "q < actual_num_int4_per_data c" "j < kNumElemsPerInt4"
  shows "cell_value c values (cell_addr c t q j) = values t q j"
proof -
  let ?n = "actual_num_int4_per_data c"
  have pos: "0 < ?n" using assms by simp
  have a: "cell_addr c t q j = int (t * (?n * 8) + (q * 8 + j))"
    by (simp add: cell_addr_def elements_per_token_def kNumElemsPerInt4_def)
  have lt: "q * 8 + j < ?n * 8" using assms by (simp add: kNumElemsPerInt4_def)
  have d: "(t * (?n * 8) + (q * 8 + j)) div (?n * 8) = t" using lt by simp
  have m: "(t * (?n * 8) + (q * 8 + j)) mod (?n * 8) = q * 8 + j" using lt by simp
  have m8: "(t * (?n * 8) + (q * 8 + j)) mod 8 = j"
    using assms(2) by (simp add: kNumElemsPerInt4_def mod_add_eq flip: mult.assoc)
  have q8: "(q * 8 + j) div 8 = q" using assms(2) by (simp add: kNumElemsPerInt4_def)
  show ?thesis
    unfolding cell_value_def a nat_int elements_per_token_def kNumElemsPerInt4_def
    by (simp only: d m m8 q8)
qed

lemma write_element_wrote:
  assumes "recv_phase c" "q < actual_num_int4_per_data c" "j < kNumElemsPerInt4"
  shows "wrote c (cell_value c values) {cell_addr c t q j} st (write_element c values t q j st)"
proof -
  have v: "cell_value c values (cell_addr c t q j) = values t q j"
    using assms(2,3) by (rule cell_value_addr)
  have a: "(int t * int (actual_num_int4_per_data c) + int q) * int kNumElemsPerInt4 + int j
             = cell_addr c t q j"
    by (simp add: cell_addr_def elements_per_token_def algebra_simps)
  show ?thesis
    unfolding write_element_def wrote_def a
    using assms(1) v by (auto simp: fun_eq_iff cell_addr_def)
qed

lemma write_token_wrote:
  assumes "recv_phase c"
  shows "wrote c (cell_value c values) (token_cells c t) st (write_token c values t st)"
  unfolding write_token_def token_cells_def
  by (intro wrote_fold) (simp add: write_element_wrote assms)

lemma token_region_cells:
  "(\<Union>t \<in> set [0..<num_combined_tokens c]. token_cells c t) = {a. token_region c a}"
proof (intro set_eqI iffI)
  fix a assume "a \<in> (\<Union>t \<in> set [0..<num_combined_tokens c]. token_cells c t)"
  then obtain t q j where tqj: "t < num_combined_tokens c" "q < actual_num_int4_per_data c" "j < 8"
      and a: "a = cell_addr c t q j"
    by (auto simp: token_cells_def kNumElemsPerInt4_def)
  let ?n = "actual_num_int4_per_data c"
  have "q * 8 + j < ?n * 8" using tqj by simp
  then have "t * (?n * 8) + (q * 8 + j) < Suc t * (?n * 8)" by simp
  also have "\<dots> \<le> num_combined_tokens c * (?n * 8)"
    using tqj(1) by (intro mult_le_mono1) simp
  finally have "int (t * (?n * 8) + (q * 8 + j)) < int (num_combined_tokens c * (?n * 8))"
    by (simp only: of_nat_less_iff)
  moreover have "a = int (t * (?n * 8) + (q * 8 + j))"
    by (simp add: a cell_addr_def elements_per_token_def kNumElemsPerInt4_def)
  moreover have "int (num_combined_tokens c) * int (elements_per_token c)
                   = int (num_combined_tokens c * (?n * 8))"
    by (simp add: elements_per_token_def kNumElemsPerInt4_def)
  ultimately have "0 \<le> a \<and> a < int (num_combined_tokens c) * int (elements_per_token c)"
    by (simp only: of_nat_0_le_iff simp_thms)
  then show "a \<in> {a. token_region c a}"
    by (simp add: token_region_def)
next
  fix a assume "a \<in> {a. token_region c a}"
  then have a: "0 \<le> a" "a < int (num_combined_tokens c) * int (elements_per_token c)"
    by (simp_all add: token_region_def)
  let ?n = "actual_num_int4_per_data c"
  let ?e = "?n * 8"
  define b where "b = nat a"
  have b: "a = int b" "b < num_combined_tokens c * ?e"
    using a by (simp_all add: b_def elements_per_token_def kNumElemsPerInt4_def nat_less_iff)
  have epos: "0 < ?e" using b(2) by (cases "?e = 0") simp_all
  define t q j where "t = b div ?e" and "q = (b mod ?e) div 8" and "j = b mod 8"
  have t: "t < num_combined_tokens c"
    unfolding t_def using b(2) epos by (simp add: less_mult_imp_div_less)
  have q: "q < ?n"
    unfolding q_def using epos by (simp add: less_mult_imp_div_less)
  have j: "j < 8" unfolding j_def by simp
  have "8 dvd ?e" by simp
  then have "b mod ?e mod 8 = b mod 8" by (rule mod_mod_cancel)
  then have "b mod ?e = q * 8 + j"
    unfolding q_def j_def by (metis div_mult_mod_eq)
  then have "b = t * ?e + (q * 8 + j)"
    unfolding t_def by (metis div_mult_mod_eq)
  then have "a = cell_addr c t q j"
    by (simp add: b(1) cell_addr_def elements_per_token_def kNumElemsPerInt4_def)
  then show "a \<in> (\<Union>t \<in> set [0..<num_combined_tokens c]. token_cells c t)"
    using t q j by (fastforce simp: token_cells_def kNumElemsPerInt4_def)
qed

lemma write_tokens_wrote:
  assumes "recv_phase c"
  shows "wrote c (cell_value c values) {a. token_region c a} st
           (fold (write_token c values) [0..<num_combined_tokens c] st)"
  unfolding token_region_cells[symmetric]
  by (intro wrote_fold) (simp add: write_token_wrote assms)

lemma combine_local_Inr:
  assumes "combine_local c topk_idx topk_weights x src_info layout_range st = Inr st'"
      and "recv_phase c"
  shows "wrote c (cell_value c (combined_values c (revalidate_num_topk (num_topk c)) topk_idx
                                   topk_weights x src_info layout_range))
           {a. token_region c a}
           (st\<lparr>corruption_logged := (corruption_logged st \<or> is_corrupted (num_topk c))\<rparr>) st'"
  using assms write_tokens_wrote[OF assms(2), of
          "combined_values c (revalidate_num_topk (num_topk c)) topk_idx topk_weights x src_info
             layout_range"
          "st\<lparr>corruption_logged := (corruption_logged st \<or> is_corrupted (num_topk c))\<rparr>"]
  by (auto simp: combine_local_def Let_def split: if_splits)

lemma combine_local_ok_iff:
  "(\<exists>st'. combine_local c topk_idx topk_weights x src_info layout_range st = Inr st') \<longleftrightarrow>
     num_topk c \<le> 32 \<and> actual_num_int4_per_data c \<le> num_threads c
     \<and> (revalidate_num_topk (num_topk c) \<le> int kNumMaxTopk \<or> num_combined_tokens c = 0)"
  by (auto simp: combine_local_def Let_def)

lemma rank_update_simps [simp]:
  "is_pure_ep_mode (c\<lparr>rank := r\<rparr>) = is_pure_ep_mode c"
  "recv_phase (c\<lparr>rank := r\<rparr>) = recv_phase c"
  "num_local_experts (c\<lparr>rank := r\<rparr>) = num_local_experts c"
  "elements_per_token (c\<lparr>rank := r\<rparr>) = elements_per_token c"
  "actual_num_int4_per_data (c\<lparr>rank := r\<rparr>) = actual_num_int4_per_data c"
  "token_region (c\<lparr>rank := r\<rparr>) = token_region c"
  "cell_value (c\<lparr>rank := r\<rparr>) = cell_value c"
  "own_workspace (c\<lparr>rank := r\<rparr>) = own_workspace c"
  by (simp_all add: is_pure_ep_mode_def recv_phase_def num_local_experts_def elements_per_token_def
        actual_num_int4_per_data_def token_region_def cell_value_def own_workspace_def fun_eq_iff)











text \<open>
  Claim C5. For a token, chunk and lane in range, \<open>combined_values[j]\<close> is the sum, in
  the order of the top-k entries and of the source ranks, of \<open>payload \<cdot> w\<^sub>t\<^sub>,\<^sub>k\<close> over the
  non-padding entries \<open>k\<close> whose expert this rank owns and the received slots of that
  expert whose \<open>src_info\<close> entry is the token; entries of experts of other ranks add
  nothing, and a token with no entry of a local expert gets zero. This sum is what the
  token loop writes for the token: to the FP32 workspace in Pure EP mode, as bfloat16 to
  \<open>combined_x\<close> otherwise.
\<close>

theorem local_partial_weighted_sum:
  assumes run: "combine_local c topk_idx topk_weights x src_info (Some layout) st = Inr st'"
      and recv: "recv_phase c"
      and t: "t < num_combined_tokens c"
      and q: "q < actual_num_int4_per_data c"
      and j: "j < kNumElemsPerInt4"
  shows "combined_values c (revalidate_num_topk (num_topk c)) topk_idx topk_weights x src_info
           (Some layout) t q j
         = weighted_sum (local_terms c (revalidate_num_topk (num_topk c)) topk_idx topk_weights x
                           src_info layout t q j)
       \<and> (if is_pure_ep_mode c
          then fp32_workspace st' (cell_addr c t q j)
                 = weighted_sum (local_terms c (revalidate_num_topk (num_topk c)) topk_idx
                                   topk_weights x src_info layout t q j)
          else combined_x st' (cell_addr c t q j)
                 = float2bfloat16 (weighted_sum (local_terms c (revalidate_num_topk (num_topk c))
                                     topk_idx topk_weights x src_info layout t q j)))
       \<and> ((\<forall>k < nat (revalidate_num_topk (num_topk c)).
              reg_topk_idx (revalidate_num_topk (num_topk c)) topk_idx t k < 0
              \<or> nat (reg_topk_idx (revalidate_num_topk (num_topk c)) topk_idx t k)
                   div num_local_experts c \<noteq> rank c)
           \<longrightarrow> local_terms c (revalidate_num_topk (num_topk c)) topk_idx topk_weights x
                 src_info layout t q j = [])"
proof -
  let ?K = "revalidate_num_topk (num_topk c)"
  let ?vals = "combined_values c ?K topk_idx topk_weights x src_info (Some layout)"
  have v: "?vals t q j = weighted_sum (local_terms c ?K topk_idx topk_weights x src_info layout t q j)"
    by (rule combined_values_terms)
  have w: "wrote c (cell_value c ?vals) {a. token_region c a}
             (st\<lparr>corruption_logged := (corruption_logged st \<or> is_corrupted (num_topk c))\<rparr>) st'"
    using run recv by (rule combine_local_Inr)
  have "cell_addr c t q j \<in> (\<Union>t \<in> set [0..<num_combined_tokens c]. token_cells c t)"
    using t q j by (fastforce simp: token_cells_def)
  then have "cell_addr c t q j \<in> {a. token_region c a}"
    by (simp only: token_region_cells)
  then have reg: "token_region c (cell_addr c t q j)"
    by simp
  have cv: "cell_value c ?vals (cell_addr c t q j) = ?vals t q j"
    using q j by (rule cell_value_addr)
  have mem: "if is_pure_ep_mode c
          then fp32_workspace st' (cell_addr c t q j)
                 = weighted_sum (local_terms c ?K topk_idx topk_weights x src_info layout t q j)
          else combined_x st' (cell_addr c t q j)
                 = float2bfloat16 (weighted_sum (local_terms c ?K topk_idx topk_weights x src_info layout t q j))"
    using w reg cv v by (simp add: wrote_def)
  have none: "(\<forall>k < nat ?K. reg_topk_idx ?K topk_idx t k < 0
                 \<or> nat (reg_topk_idx ?K topk_idx t k) div num_local_experts c \<noteq> rank c)
           \<longrightarrow> local_terms c ?K topk_idx topk_weights x src_info layout t q j = []"
    by (auto simp: local_terms_def)
  show ?thesis by (intro conjI) (rule v, rule mem, rule none)
qed

lemma num_topk_update_simps:
  "is_pure_ep_mode (c\<lparr>num_topk := v\<rparr>) = is_pure_ep_mode c"
  "recv_phase (c\<lparr>num_topk := v\<rparr>) = recv_phase c"
  "actual_num_int4_per_data (c\<lparr>num_topk := v\<rparr>) = actual_num_int4_per_data c"
  "combined_values (c\<lparr>num_topk := v\<rparr>) = combined_values c"
  "write_token (c\<lparr>num_topk := v\<rparr>) = write_token c"
  "combine_pure_ep (c\<lparr>num_topk := v\<rparr>) = combine_pure_ep c"
proof -
  show p: "is_pure_ep_mode (c\<lparr>num_topk := v\<rparr>) = is_pure_ep_mode c"
    and r: "recv_phase (c\<lparr>num_topk := v\<rparr>) = recv_phase c"
    and n: "actual_num_int4_per_data (c\<lparr>num_topk := v\<rparr>) = actual_num_int4_per_data c"
    by (simp_all add: is_pure_ep_mode_def recv_phase_def num_local_experts_def
          actual_num_int4_per_data_def)
  have e: "elements_per_token (c\<lparr>num_topk := v\<rparr>) = elements_per_token c"
    by (simp add: elements_per_token_def n)
  have l: "num_local_experts (c\<lparr>num_topk := v\<rparr>) = num_local_experts c"
    by (simp add: num_local_experts_def)
  have lx: "load_x (c\<lparr>num_topk := v\<rparr>) = load_x c"
    by (intro ext) (simp add: load_x_def n l)
  have ar: "accumulate_rank (c\<lparr>num_topk := v\<rparr>) = accumulate_rank c"
    by (intro ext) (simp add: accumulate_rank_def Let_def lx cong: option.case_cong)
  have ae: "accumulate_entry (c\<lparr>num_topk := v\<rparr>) = accumulate_entry c"
    by (intro ext) (simp add: accumulate_entry_def l ar cong: option.case_cong if_cong)
  show "combined_values (c\<lparr>num_topk := v\<rparr>) = combined_values c"
    by (intro ext) (simp add: combined_values_def ae)
  have we: "write_element (c\<lparr>num_topk := v\<rparr>) = write_element c"
    by (intro ext) (simp add: write_element_def p r n e cong: if_cong)
  show "write_token (c\<lparr>num_topk := v\<rparr>) = write_token c"
    by (intro ext) (simp add: write_token_def n we)
  have tr: "token_region (c\<lparr>num_topk := v\<rparr>) = token_region c"
    by (intro ext) (simp add: token_region_def e)
  have ow: "own_workspace (c\<lparr>num_topk := v\<rparr>) = own_workspace c"
    by (intro ext) (simp add: own_workspace_def r tr cong: if_cong)
  show "combine_pure_ep (c\<lparr>num_topk := v\<rparr>) = combine_pure_ep c"
    by (intro ext) (simp add: combine_pure_ep_def e tr ow cong: if_cong)
qed

lemma write_tokens_frame:
  "fold (write_token c V) ts (s\<lparr>corruption_logged := b\<rparr>)
     = (fold (write_token c V) ts s)\<lparr>corruption_logged := b\<rparr>"
proof -
  have e: "write_element c V t q j (s\<lparr>corruption_logged := b\<rparr>)
             = (write_element c V t q j s)\<lparr>corruption_logged := b\<rparr>" for t q j s
    by (simp add: write_element_def)
  have l: "fold (write_element c V t q) js (s\<lparr>corruption_logged := b\<rparr>)
             = (fold (write_element c V t q) js s)\<lparr>corruption_logged := b\<rparr>" for t q js s
    by (induction js arbitrary: s) (simp_all add: e)
  have k: "fold (\<lambda>q. fold (write_element c V t q) js) qs (s\<lparr>corruption_logged := b\<rparr>)
             = (fold (\<lambda>q. fold (write_element c V t q) js) qs s)\<lparr>corruption_logged := b\<rparr>"
    for t js qs s
    by (induction qs arbitrary: s) (simp_all add: l)
  show ?thesis
    by (induction ts arbitrary: s) (simp_all add: write_token_def k)
qed

lemma write_tokens_syncs:
  "grid_syncs (fold (write_token c V) ts s) = grid_syncs s"
  "corruption_logged (fold (write_token c V) ts s) = corruption_logged s"
proof -
  have e: "grid_syncs (write_element c V t q j s) = grid_syncs s
           \<and> corruption_logged (write_element c V t q j s) = corruption_logged s" for t q j s
    by (simp add: write_element_def)
  have l: "grid_syncs (fold (write_element c V t q) js s) = grid_syncs s
           \<and> corruption_logged (fold (write_element c V t q) js s) = corruption_logged s"
    for t q js s
    by (induction js arbitrary: s) (simp_all add: e)
  have k: "grid_syncs (fold (\<lambda>q. fold (write_element c V t q) js) qs s) = grid_syncs s
           \<and> corruption_logged (fold (\<lambda>q. fold (write_element c V t q) js) qs s)
               = corruption_logged s"
    for t js qs s
    by (induction qs arbitrary: s) (simp_all add: l)
  have m: "grid_syncs (fold (write_token c V) ts s) = grid_syncs s
           \<and> corruption_logged (fold (write_token c V) ts s) = corruption_logged s" for s
    by (induction ts arbitrary: s) (simp_all add: write_token_def k)
  show "grid_syncs (fold (write_token c V) ts s) = grid_syncs s"
    "corruption_logged (fold (write_token c V) ts s) = corruption_logged s"
    using m by simp_all
qed

lemma combine_reduce_above_32:
  "32 < num_topk c \<Longrightarrow>
     combine_reduce c topk_idx topk_weights x src_info layout_range peers st = Inl DeviceAssert"
  by (simp add: combine_reduce_def combine_local_def)

text \<open>
  Claim C8, as amended. The cached \<open>num_topk\<close> is a copy of the parameter. Let the other
  device assertions of the reduce phase hold. If the value is zero or negative, the value
  used is 1, the violation is logged, and the phase runs to its end, through the four
  grid syncs of the Pure EP reduction: its result is the result of the launch with
  \<open>num_topk = 1\<close>, but for the log. If the value is above 32, the kernel aborts at
  \<^verbatim>\<open>EP_DEVICE_ASSERT(num_topk <= 32)\<close>, before the guard.
\<close>

theorem corrupted_num_topk_forced_or_aborts:
  assumes a2: "actual_num_int4_per_data c \<le> num_threads c"
      and a3: "is_pure_ep_mode c \<longrightarrow> 0 < elements_per_token c \<and> 0 < num_combined_tokens c"
  shows "(num_topk c \<le> 0 \<longrightarrow>
            is_corrupted (num_topk c) \<and> revalidate_num_topk (num_topk c) = 1
            \<and> (\<exists>st'. combine_reduce c topk_idx topk_weights x src_info layout_range peers st = Inr st'
                   \<and> corruption_logged st'
                   \<and> grid_syncs st' = grid_syncs st + (if is_pure_ep_mode c then 4 else 0)
                   \<and> combine_reduce (c\<lparr>num_topk := 1\<rparr>) topk_idx topk_weights x src_info
                       layout_range peers st
                       = Inr (st'\<lparr>corruption_logged := corruption_logged st\<rparr>)))
       \<and> (32 < num_topk c \<longrightarrow>
            combine_reduce c topk_idx topk_weights x src_info layout_range peers st
              = Inl DeviceAssert)"
proof (intro conjI impI)
  assume "32 < num_topk c"
  then show "combine_reduce c topk_idx topk_weights x src_info layout_range peers st = Inl DeviceAssert"
    by (rule combine_reduce_above_32)
next
  assume bad: "num_topk c \<le> 0"
  then show "is_corrupted (num_topk c)" by (simp add: is_corrupted_def)
next
  assume bad: "num_topk c \<le> 0"
  then show "revalidate_num_topk (num_topk c) = 1"
    by (simp add: revalidate_num_topk_def is_corrupted_def)
next
  assume bad: "num_topk c \<le> 0"
  let ?c1 = "c\<lparr>num_topk := 1\<rparr>"
  have r: "revalidate_num_topk (num_topk c) = 1" "is_corrupted (num_topk c)"
    using bad by (auto simp: revalidate_num_topk_def is_corrupted_def)
  have r1: "revalidate_num_topk 1 = 1" "\<not> is_corrupted 1"
    by (simp_all add: revalidate_num_topk_def is_corrupted_def)
  let ?vals = "combined_values c 1 topk_idx topk_weights x src_info layout_range"
  let ?run = "\<lambda>s. fold (write_token c ?vals) [0..<num_combined_tokens c] s"
  have loc: "combine_local c topk_idx topk_weights x src_info layout_range st
               = Inr (?run (st\<lparr>corruption_logged := True\<rparr>))"
    using bad a2 r by (simp add: combine_local_def kNumMaxTopk_def Let_def)
  have loc1: "combine_local ?c1 topk_idx topk_weights x src_info layout_range st = Inr (?run st)"
    using a2 r1 by (simp add: combine_local_def kNumMaxTopk_def Let_def num_topk_update_simps)
  note frame = write_tokens_frame[where c=c and V="?vals" and ts="[0..<num_combined_tokens c]"]
  note syncs = write_tokens_syncs[where c=c and V="?vals" and ts="[0..<num_combined_tokens c]"]
  show "\<exists>st'. combine_reduce c topk_idx topk_weights x src_info layout_range peers st = Inr st'
                   \<and> corruption_logged st'
                   \<and> grid_syncs st' = grid_syncs st + (if is_pure_ep_mode c then 4 else 0)
                   \<and> combine_reduce ?c1 topk_idx topk_weights x src_info layout_range peers st
                       = Inr (st'\<lparr>corruption_logged := corruption_logged st\<rparr>)"
  proof (cases "is_pure_ep_mode c")
    case False
    then show ?thesis
      using loc loc1 frame[where s=st and b=True] syncs
      by (simp add: combine_reduce_def num_topk_update_simps)
  next
    case True
    have ow: "own_workspace c (s\<lparr>corruption_logged := b\<rparr>) = own_workspace c s" for s b
      by (simp add: own_workspace_def fun_eq_iff)
    have p: "combine_pure_ep c peers (s\<lparr>corruption_logged := b\<rparr>)
               = map_sum id (\<lambda>s'. s'\<lparr>corruption_logged := b\<rparr>) (combine_pure_ep c peers s)" for s b
      using a3 True by (simp add: combine_pure_ep_def Let_def ow cong: if_cong)
    obtain s1 where s1: "combine_pure_ep c peers (?run st) = Inr s1"
        "grid_syncs s1 = grid_syncs (?run st) + 4" "corruption_logged s1 = corruption_logged (?run st)"
      using a3 True by (simp add: combine_pure_ep_def Let_def)
    have full: "combine_reduce c topk_idx topk_weights x src_info layout_range peers st
                  = Inr (s1\<lparr>corruption_logged := True\<rparr>)"
      using loc True frame[where s=st and b=True] p[where s="?run st" and b=True] s1(1)
      by (simp add: combine_reduce_def)
    have full1: "combine_reduce ?c1 topk_idx topk_weights x src_info layout_range peers st = Inr s1"
      using loc1 True s1(1) by (simp add: combine_reduce_def num_topk_update_simps)
    have restore: "(s1\<lparr>corruption_logged := True\<rparr>)\<lparr>corruption_logged := corruption_logged st\<rparr> = s1"
      using s1(3) syncs(2)[of st] by simp
    show ?thesis
      using True full full1 restore s1(2) syncs(1)[of st] by simp
  qed
qed

text \<open>
  The claim as stated fails at \<open>num_topk = 33\<close>: the value is outside the valid range, and
  the kernel aborts at the assertion instead of forcing 1, logging and continuing.
\<close>

theorem corrupted_num_topk_aborts:
  "combine_reduce (scenario_combine\<lparr>num_topk := 33\<rparr>) (\<lambda>_. 0) (\<lambda>_. Finite 3) (\<lambda>_. Finite 2) (\<lambda>_. 0)
     (Some (\<lambda>_. (1, 0))) (\<lambda>_ _. Finite 0) stale_combine_state = Inl DeviceAssert"
  by (simp add: combine_reduce_def combine_local_def scenario_combine_def)


lemma scenario_combine_facts:
  "num_topk scenario_combine = 1" "num_ranks scenario_combine = 1"
  "num_max_dispatch_tokens_per_rank scenario_combine = 1"
  "num_combined_tokens scenario_combine = 1" "num_threads scenario_combine = 1024"
  "actual_num_int4_per_data scenario_combine = 256" "elements_per_token scenario_combine = 2048"
  "is_pure_ep_mode scenario_combine" "recv_phase scenario_combine"
  "num_local_experts scenario_combine = 1" "rank scenario_combine = 0"
  by (simp_all add: scenario_combine_def actual_num_int4_per_data_def elements_per_token_def
        kNumElemsPerInt4_def is_pure_ep_mode_def num_local_experts_def recv_phase_def)

lemma scenario_combine_value:
  "combined_values (scenario_combine\<lparr>rank := 0\<rparr>) 1 (\<lambda>_. 0) (\<lambda>_. w) (\<lambda>_. v) (\<lambda>_. 0)
     (Some (\<lambda>_. (1, 0))) 0 0 0 = fadd (Finite 0) (fmul v w)"
  by (simp add: combined_values_def accumulate_entry_def accumulate_rank_def reg_topk_idx_def
        reg_topk_weights_def static_cast_int_def Let_def unpack2_def load_x_def
        scenario_combine_facts kNumElemsPerInt4_def)




text \<open>The launch with payload 2 and weight 3: the workspace element of the token is 6.\<close>

theorem local_partial_weighted_sum_witness:
  "\<exists>st'. combine_local scenario_combine (\<lambda>_. 0) (\<lambda>_. Finite 3) (\<lambda>_. Finite 2) (\<lambda>_. 0)
            (Some (\<lambda>_. (1, 0))) stale_combine_state = Inr st'
        \<and> fp32_workspace st' 0 = Finite 6"
proof -
  have "\<exists>st'. combine_local scenario_combine (\<lambda>_. 0) (\<lambda>_. Finite 3) (\<lambda>_. Finite 2) (\<lambda>_. 0)
            (Some (\<lambda>_. (1, 0))) stale_combine_state = Inr st'"
    unfolding combine_local_ok_iff
    by (simp add: scenario_combine_facts revalidate_num_topk_def is_corrupted_def kNumMaxTopk_def)
  then obtain st' where run: "combine_local scenario_combine (\<lambda>_. 0) (\<lambda>_. Finite 3) (\<lambda>_. Finite 2) (\<lambda>_. 0)
            (Some (\<lambda>_. (1, 0))) stale_combine_state = Inr st'"
    by blast
  have k: "revalidate_num_topk 1 = 1" by (simp add: revalidate_num_topk_def is_corrupted_def)
  have v: "combined_values scenario_combine 1 (\<lambda>_. 0) (\<lambda>_. Finite 3) (\<lambda>_. Finite 2) (\<lambda>_. 0)
             (Some (\<lambda>_. (1, 0))) 0 0 0 = Finite 6"
    using scenario_combine_value[of "Finite 3" "Finite 2"] by (simp add: scenario_combine_def)
  have "fp32_workspace st' (cell_addr scenario_combine 0 0 0) = Finite 6"
    using local_partial_weighted_sum[OF run scenario_combine_facts(9), of 0 0 0] v
    by (simp add: scenario_combine_facts k kNumElemsPerInt4_def)
  then show ?thesis using run by (simp add: cell_addr_def)
qed

text \<open>
  A launch with \<open>num_topk = -3\<close>: the guard forces 1, logs, and the four grid syncs
  follow; a launch with \<open>num_topk = 40\<close> aborts.
\<close>

theorem corrupted_num_topk_forced_or_aborts_witness:
  "(\<exists>st'. combine_reduce (scenario_combine\<lparr>num_topk := - 3\<rparr>) (\<lambda>_. 0) (\<lambda>_. Finite 3) (\<lambda>_. Finite 2)
            (\<lambda>_. 0) (Some (\<lambda>_. (1, 0))) (\<lambda>_ _. Finite 0) stale_combine_state = Inr st'
        \<and> corruption_logged st' \<and> grid_syncs st' = 4)
   \<and> combine_reduce (scenario_combine\<lparr>num_topk := 40\<rparr>) (\<lambda>_. 0) (\<lambda>_. Finite 3) (\<lambda>_. Finite 2)
            (\<lambda>_. 0) (Some (\<lambda>_. (1, 0))) (\<lambda>_ _. Finite 0) stale_combine_state = Inl DeviceAssert"
proof -
  have f: "actual_num_int4_per_data (scenario_combine\<lparr>num_topk := v\<rparr>)
             \<le> num_threads (scenario_combine\<lparr>num_topk := v\<rparr>)"
          "is_pure_ep_mode (scenario_combine\<lparr>num_topk := v\<rparr>)"
          "0 < elements_per_token (scenario_combine\<lparr>num_topk := v\<rparr>)
           \<and> 0 < num_combined_tokens (scenario_combine\<lparr>num_topk := v\<rparr>)" for v
    by (simp_all add: scenario_combine_def actual_num_int4_per_data_def elements_per_token_def
          kNumElemsPerInt4_def is_pure_ep_mode_def num_local_experts_def)
  have g: "grid_syncs stale_combine_state = 0" by (simp add: stale_combine_state_def)
  show ?thesis
    using corrupted_num_topk_forced_or_aborts[where c="scenario_combine\<lparr>num_topk := - 3\<rparr>"
            and topk_idx="\<lambda>_. 0" and topk_weights="\<lambda>_. Finite 3" and x="\<lambda>_. Finite 2"
            and src_info="\<lambda>_. 0" and layout_range="Some (\<lambda>_. (1, 0))" and peers="\<lambda>_ _. Finite 0"
            and st=stale_combine_state]
          corrupted_num_topk_forced_or_aborts[where c="scenario_combine\<lparr>num_topk := 40\<rparr>"
            and topk_idx="\<lambda>_. 0" and topk_weights="\<lambda>_. Finite 3" and x="\<lambda>_. Finite 2"
            and src_info="\<lambda>_. 0" and layout_range="Some (\<lambda>_. (1, 0))" and peers="\<lambda>_ _. Finite 0"
            and st=stale_combine_state]
          f g
    by auto
qed

lemma select_warps_none:
  assumes "\<not> (min_warps \<le> 32 \<and> 1 \<le> ceil_div experts sms)" "\<forall>wg \<in> set wgs. 1 \<le> wg"
  shows "select_warps min_warps experts sms wgs = (1, 32)"
  using assms(2)
proof (induction wgs)
  case Nil
  then show ?case by simp
next
  case (Cons wg wgs)
  have m: "wg * (32 div wg) \<le> 32" by (simp add: mult.commute)
  have "\<not> (wg * (32 div wg) \<ge> min_warps \<and> wg \<le> ceil_div experts sms)"
  proof
    assume a: "wg * (32 div wg) \<ge> min_warps \<and> wg \<le> ceil_div experts sms"
    then have "min_warps \<le> 32" using m by linarith
    moreover have "1 \<le> ceil_div experts sms" using a Cons.prems by auto
    ultimately show False using assms(1) by simp
  qed
  then show ?case using Cons by (auto simp: Let_def)
qed

lemma select_warps_launch: "select_warps min_warps experts sms [1..<33] = (1, 32)"
proof -
  have l: "[1..<33] = 1 # [2..<33]" by (simp add: upt_conv_Cons)
  show ?thesis
  proof (cases "min_warps \<le> 32 \<and> 1 \<le> ceil_div experts sms")
    case True
    then show ?thesis unfolding l by (simp add: Let_def)
  next
    case False
    then show ?thesis by (intro select_warps_none) auto
  qed
qed

lemma select_warps_launch': "select_warps min_warps experts sms [Suc 0..<33] = (Suc 0, 32)"
  using select_warps_launch[of min_warps experts sms] by simp

lemma rank_config_simps [simp]:
  "num_warp_groups (rank_config c sms tokens r) = 1"
  "num_warps_per_group (rank_config c sms tokens r) = 32"
  "rank (rank_config c sms tokens r) = r"
  "num_tokens (rank_config c sms tokens r) = tokens r"
  "num_ranks (rank_config c sms tokens r) = num_ranks c"
  "num_experts (rank_config c sms tokens r) = num_experts c"
  "num_topk (rank_config c sms tokens r) = num_topk c"
  "num_max_dispatch_tokens_per_rank (rank_config c sms tokens r) = num_max_dispatch_tokens_per_rank c"
  "phases (rank_config c sms tokens r) = phases c"
  by (simp_all add: rank_config_def dispatch_launch_def select_warps_launch')

lemma rank_config_derived [simp]:
  "num_local_experts (rank_config c sms tokens r) = num_local_experts c"
  "is_pure_ep_mode (rank_config c sms tokens r) = is_pure_ep_mode c"
  "send_phase (rank_config c sms tokens r) = send_phase c"
  "recv_phase (rank_config c sms tokens r) = recv_phase c"
  "num_warps (rank_config c sms tokens r) = 32"
  by (simp_all add: num_local_experts_def is_pure_ep_mode_def send_phase_def recv_phase_def num_warps_def)

lemma map_fatal_Inr:
  "map_fatal f as = Inr bs \<Longrightarrow> length bs = length as \<and> (\<forall>i < length as. f (as ! i) = Inr (bs ! i))"
proof (induction as arbitrary: bs)
  case Nil
  then show ?case by simp
next
  case (Cons a as)
  from Cons.prems obtain b bs' where b: "f a = Inr b" "map_fatal f as = Inr bs'" "bs = b # bs'"
    by (auto split: sum.splits)
  show ?case using Cons.IH[OF b(2)] b by (auto simp: nth_Cons split: nat.splits)
qed

lemma deliver_count_sum:
  "fold (deliver_count d) ops mem cell = mem cell + sum_list (map (count_to d cell) ops)"
proof (induction ops arbitrary: mem)
  case Nil
  then show ?case by simp
next
  case (Cons op ops)
  show ?case
    by (cases op) (simp_all add: Cons.IH count_to_def atomicAdd_def)
qed

lemma count_to_puts: "list_all is_put ps \<Longrightarrow> sum_list (map (count_to d cell) ps) = 0"
  by (induction ps) (auto simp: is_put_def count_to_def split: remote_op.splits)

lemma sum_list_single:
  assumes "e < n"
  shows "sum_list (map (\<lambda>e'. if e' = e then v e' else (0::int)) [0..<n]) = v e"
proof -
  have "sum_list (map (\<lambda>e'. if e' = e then v e' else 0) [0..<n])
          = (\<Sum>e' \<in> {0..<n}. if e' = e then v e' else 0)"
    by (simp add: interv_sum_list_conv_sum_set_nat)
  also have "\<dots> = v e" using assms by (simp add: sum.delta)
  finally show ?thesis .
qed

lemma sum_list_zero: "(\<And>a. a \<in> set as \<Longrightarrow> f a = (0::int)) \<Longrightarrow> sum_list (map f as) = 0"
  by (induction as) simp_all

lemma pair_cell_unique:
  fixes L R :: nat
  assumes "r < R" "q < R"
  shows "(e' div L = e div L \<and> e' mod L * R + q = e mod L * R + r) \<longleftrightarrow> (e' = e \<and> q = r)"
proof
  assume a: "e' div L = e div L \<and> e' mod L * R + q = e mod L * R + r"
  then have "(e' mod L * R + q) mod R = (e mod L * R + r) mod R" by simp
  then have qr: "q = r" using assms by simp
  then have "e' mod L * R = e mod L * R" using a by simp
  then have "e' mod L = e mod L" using assms by simp
  then have "e' = e" using a by (metis div_mult_mod_eq)
  then show "e' = e \<and> q = r" using qr by simp
qed auto

lemma fold_fatal_preserves:
  assumes "\<And>a s s'. a \<in> set as \<Longrightarrow> f a s = Inr s' \<Longrightarrow> g s' = g s"
      and "fold_fatal f as s = Inr s'"
  shows "g s' = g s"
  using assms
proof (induction as arbitrary: s)
  case Nil
  then show ?case by simp
next
  case (Cons a as)
  from Cons.prems(2) obtain s1 where s1: "f a s = Inr s1" "fold_fatal f as s1 = Inr s'"
    by (auto split: sum.splits)
  have "g s' = g s1"
    using Cons.IH[of s1] Cons.prems(1) s1(2) by (metis list.set_intros(2))
  moreover have "g s1 = g s"
    using Cons.prems(1)[of a s s1] s1(1) by simp
  ultimately show ?case by simp
qed

lemma wait_count_value: "wait_count ld i = Inr (v, n) \<Longrightarrow> \<exists>j. v = ld j"
proof (induction ld i rule: wait_count.induct)
  case (1 ld i)
  show ?case
  proof (cases "ld i \<noteq> 0")
    case True
    then show ?thesis using "1.prems" by (auto simp: wait_count_now)
  next
    case False
    then show ?thesis
      using "1.prems" "1.IH" by (subst (asm) wait_count.simps) (auto split: if_splits)
  qed
qed

lemma copy_token_count:
  "copy_token c msgs scale_of pair begin i r = Inr r' \<Longrightarrow> packed_recv_count r' = packed_recv_count r"
  by (auto simp: copy_token_def Let_def split: if_splits)

lemma recv_count_Inr:
  assumes "recv_count c ld pair r = Inr (n, begin, r')"
  shows "\<exists>v loads. wait_count (ld (pair div num_ranks c * num_ranks c + pair mod num_ranks c)) 0
                      = Inr (v, loads)
           \<and> n = decode_count v
           \<and> packed_recv_count r' =
               (packed_recv_count r)
                 (pair div num_ranks c * num_ranks c + pair mod num_ranks c :=
                    packed_recv_count r (pair div num_ranks c * num_ranks c + pair mod num_ranks c)
                      + decode_count v)
           \<and> packed_recv_count r (pair div num_ranks c * num_ranks c + pair mod num_ranks c)
                 + decode_count v \<le> num_max_dispatch_tokens_per_rank c"
proof (cases "wait_count (ld (pair div num_ranks c * num_ranks c + pair mod num_ranks c)) 0")
  case (Inl err)
  then show ?thesis using assms by (simp add: recv_count_def Let_def)
next
  case (Inr p)
  obtain v loads where p: "p = (v, loads)" by (cases p)
  have nz: "v \<noteq> 0" using wait_count_Inr[of _ 0 v loads] Inr p by simp
  show ?thesis
    using assms Inr p nz
    by (auto simp: recv_count_def Let_def atomicAdd_def split: if_splits)
qed

lemma recv_warp_group_Inr:
  assumes "recv_warp_group c ld msgs scale_of pair g r = Inr r'"
  shows "\<exists>v loads. wait_count (ld (pair div num_ranks c * num_ranks c + pair mod num_ranks c)) 0
                      = Inr (v, loads)
           \<and> packed_recv_count r' =
               (packed_recv_count r)
                 (pair div num_ranks c * num_ranks c + pair mod num_ranks c :=
                    packed_recv_count r (pair div num_ranks c * num_ranks c + pair mod num_ranks c)
                      + decode_count v)
           \<and> packed_recv_count r (pair div num_ranks c * num_ranks c + pair mod num_ranks c)
                 + decode_count v \<le> num_max_dispatch_tokens_per_rank c"
proof -
  from assms obtain n first r1 where rc: "recv_count c ld pair r = Inr (n, first, r1)"
    by (auto simp: recv_warp_group_def split: sum.splits)
  have same: "packed_recv_count r' = packed_recv_count r1"
  proof (cases "n = 0")
    case True
    then show ?thesis using assms rc by (simp add: recv_warp_group_def)
  next
    case False
    then have "fold_fatal (copy_token c msgs scale_of pair first) [0..<nat n] r1 = Inr r'"
      using assms rc by (simp add: recv_warp_group_def split: if_splits)
    then show ?thesis
      by (rule fold_fatal_preserves[rotated]) (rule copy_token_count)
  qed
  show ?thesis using recv_count_Inr[OF rc] same by auto
qed

lemma recv_block_Inr:
  assumes run: "recv_block c nrt ld msgs scale_of b r = Inr r'"
      and g: "num_warp_groups c = 1"
  shows "if nrt (rank c) > 0 \<and> b < num_local_experts c * num_ranks c
         then \<exists>v loads. wait_count (ld b) 0 = Inr (v, loads)
                \<and> packed_recv_count r' = (packed_recv_count r)(b := packed_recv_count r b + decode_count v)
                \<and> packed_recv_count r b + decode_count v \<le> num_max_dispatch_tokens_per_rank c
         else r' = r"
proof (cases "nrt (rank c) > 0 \<and> b < num_local_experts c * num_ranks c")
  case False
  then show ?thesis using run by (auto simp: recv_block_def Let_def)
next
  case True
  have cell: "b div num_ranks c * num_ranks c + b mod num_ranks c = b" by simp
  from run True g have "recv_warp_group c ld msgs scale_of b 0 r = Inr r'"
    by (auto simp: recv_block_def Let_def split: if_splits sum.splits)
  from recv_warp_group_Inr[OF this] show ?thesis using True unfolding cell by simp
qed

lemma recv_blocks_Inr:
  assumes "fold_fatal (recv_block c nrt ld msgs scale_of) bs r = Inr r'"
      and "num_warp_groups c = 1" "distinct bs"
      and "nrt (rank c) > 0"
  shows "\<forall>b. if b \<in> set bs \<and> b < num_local_experts c * num_ranks c
             then \<exists>v loads. wait_count (ld b) 0 = Inr (v, loads)
                    \<and> packed_recv_count r' b = packed_recv_count r b + decode_count v
                    \<and> packed_recv_count r b + decode_count v \<le> num_max_dispatch_tokens_per_rank c
             else packed_recv_count r' b = packed_recv_count r b"
  using assms(1,3)
proof (induction bs arbitrary: r)
  case Nil
  then show ?case by simp
next
  case (Cons a bs)
  from Cons.prems(1) obtain r1 where r1: "recv_block c nrt ld msgs scale_of a r = Inr r1"
      "fold_fatal (recv_block c nrt ld msgs scale_of) bs r1 = Inr r'"
    by (auto split: sum.splits)
  note blk = recv_block_Inr[OF r1(1) assms(2)]
  have IH: "\<forall>b. if b \<in> set bs \<and> b < num_local_experts c * num_ranks c
             then \<exists>v loads. wait_count (ld b) 0 = Inr (v, loads)
                    \<and> packed_recv_count r' b = packed_recv_count r1 b + decode_count v
                    \<and> packed_recv_count r1 b + decode_count v \<le> num_max_dispatch_tokens_per_rank c
             else packed_recv_count r' b = packed_recv_count r1 b"
    using Cons.IH[OF r1(2)] Cons.prems(2) by simp
  have notin: "a \<notin> set bs" using Cons.prems(2) by simp
  show ?case
  proof
    fix b
    show "if b \<in> set (a # bs) \<and> b < num_local_experts c * num_ranks c
             then \<exists>v loads. wait_count (ld b) 0 = Inr (v, loads)
                    \<and> packed_recv_count r' b = packed_recv_count r b + decode_count v
                    \<and> packed_recv_count r b + decode_count v \<le> num_max_dispatch_tokens_per_rank c
             else packed_recv_count r' b = packed_recv_count r b"
    proof (cases "a < num_local_experts c * num_ranks c")
      case False
      then have "r1 = r" using blk by simp
      then show ?thesis using IH[rule_format, of b] False by auto
    next
      case True
      then obtain v loads where v: "wait_count (ld a) 0 = Inr (v, loads)"
          "packed_recv_count r1 = (packed_recv_count r)(a := packed_recv_count r a + decode_count v)"
          "packed_recv_count r a + decode_count v \<le> num_max_dispatch_tokens_per_rank c"
        using blk assms(4) by auto
      show ?thesis
      proof (cases "b = a")
        case True
        then have "packed_recv_count r' b = packed_recv_count r1 b"
          using IH[rule_format, of b] notin by simp
        then show ?thesis using True \<open>a < num_local_experts c * num_ranks c\<close> v by auto
      next
        case False
        then have "packed_recv_count r1 b = packed_recv_count r b" using v(2) by simp
        then show ?thesis using IH[rule_format, of b] False by auto
      qed
    qed
  qed
qed

lemma sender_counts_to:
  assumes run: "dispatch_send cq topk_idx x s = Inr s'"
      and sp: "send_phase cq"
      and fresh: "outbox s = []"
      and q: "rank cq < num_ranks cq" and r: "r < num_ranks cq" and e: "e < num_experts cq"
  shows "sum_list (map (count_to (e div num_local_experts cq) (e mod num_local_experts cq * num_ranks cq + r))
                       (outbox s'))
         = (if rank cq = r then encode_count (actual_sent_count cq e s') else 0)"
proof -
  let ?L = "num_local_experts cq" and ?R = "num_ranks cq"
  let ?d = "e div ?L" and ?cell = "e mod ?L * ?R + r"
  from dispatch_send_Inr[OF run sp] obtain s1 ps where
      same: "atomic_counter_per_expert s' = atomic_counter_per_expert s1"
      and puts: "list_all is_put ps"
      and out: "outbox s' = outbox s @ ps @ map (\<lambda>e. count_op cq e s1) [0..<num_experts cq]"
    by blast
  have act: "actual_sent_count cq e' s1 = actual_sent_count cq e' s'" for e'
    using same by (simp add: actual_sent_count_def)
  have each: "count_to ?d ?cell (count_op cq e' s1)
               = (if e' = e then (if rank cq = r then encode_count (actual_sent_count cq e s') else 0) else 0)"
    for e'
    using pair_cell_unique[OF r q, of e' ?L e] 
    by (auto simp: count_to_def count_op_def Let_def act)
  have "sum_list (map (count_to ?d ?cell) (outbox s'))
          = sum_list (map (\<lambda>e'. count_to ?d ?cell (count_op cq e' s1)) [0..<num_experts cq])"
    unfolding out fresh using count_to_puts[OF puts] by (simp add: comp_def)
  also have "\<dots> = sum_list (map (\<lambda>e'. if e' = e then (if rank cq = r
                        then encode_count (actual_sent_count cq e s') else 0) else 0) [0..<num_experts cq])"
    by (simp only: each)
  also have "\<dots> = (if rank cq = r then encode_count (actual_sent_count cq e s') else 0)"
    using sum_list_single[OF e, of "\<lambda>_. if rank cq = r then encode_count (actual_sent_count cq e s') else 0"]
    by simp
  finally show ?thesis .
qed

lemma sender_actual_count:
  assumes run: "dispatch_send cq topk_idx x s = Inr s'"
      and sp: "send_phase cq"
      and zero: "atomic_counter_per_expert s = (\<lambda>_. 0)" "slot_reservations s = (\<lambda>_. 0)"
  shows "actual_sent_count cq e s' = int (slot_reservations s' (e * num_ranks cq + rank cq))"
proof -
  from dispatch_send_Inr[OF run sp] obtain s1 :: "'a sender" where
      "\<forall>i. atomic_counter_per_expert s1 i
               = atomic_counter_per_expert s i + int (sent_total cq topk_idx [0..<num_experts cq] i)"
      "\<forall>i. slot_reservations s1 i
               = slot_reservations s i + sent_total cq topk_idx [0..<num_experts cq] i"
      "atomic_counter_per_expert s' = atomic_counter_per_expert s1"
      "slot_reservations s' = slot_reservations s1"
    by blast
  then show ?thesis using zero by (simp add: actual_sent_count_def Let_def)
qed

lemma sum_list_nth:
  assumes "length xs = n"
  shows "sum_list (map g xs) = sum_list (map (\<lambda>q. g (xs ! q)) [0..<n])"
proof -
  have "map g xs = map (\<lambda>q. g (xs ! q)) [0..<n]"
    using assms by (auto intro: nth_equalityI)
  then show ?thesis by simp
qed

lemma sum_list_concat_map:
  "sum_list (map f (concat xss)) = sum_list (map (\<lambda>xs. sum_list (map f xs)) xss)"
  by (induction xss) simp_all

text \<open>
  What the receive phase does when it is entered. Let a dispatch with both phases start
  from zeroed counters, a zeroed count buffer and a zeroed \<open>packed_recv_count\<close>, with
  \<open>E = L \<cdot> R\<close>, and let it complete on the rank \<open>e div L\<close> that owns expert \<open>e\<close> and on
  the source rank \<open>r\<close>. If \<open>num_recv_tokens_per_rank[rank]\<close> is positive on the owner,
  then \<open>packed_recv_count[e mod L][r]\<close> on the owner is the number of slot reservations
  (\<^verbatim>\<open>atomicAdd\<close>s of the send loop) on counter \<open>(e, r)\<close> of rank \<open>r\<close>, and it is at most
  \<open>num_max_dispatch_tokens_per_rank\<close>.
\<close>

theorem packed_recv_count_when_processed:
  assumes sp: "send_phase c" and rp: "recv_phase c"
      and ranks: "0 < num_ranks c"
      and experts: "num_experts c = num_local_experts c * num_ranks c"
      and zero_send: "\<forall>q < num_ranks c. atomic_counter_per_expert (send_mem (mem q)) = (\<lambda>_. 0)
                                        \<and> slot_reservations (send_mem (mem q)) = (\<lambda>_. 0)"
      and zero_count: "rdma_recv_count_mem (mem (e div num_local_experts c)) = (\<lambda>_. 0)"
      and zero_packed: "packed_recv_count (recv_mem (mem (e div num_local_experts c))) = (\<lambda>_. 0)"
      and e: "e < num_experts c" and r: "r < num_ranks c"
      and process: "0 < num_recv_tokens_per_rank (e div num_local_experts c) (e div num_local_experts c)"
      and run_owner: "dispatch_all c num_device_sms tokens topk_idx x num_recv_tokens_per_rank scale_of mem
                        (e div num_local_experts c) = Inr owner"
      and run_src: "dispatch_all c num_device_sms tokens topk_idx x num_recv_tokens_per_rank scale_of mem r
                        = Inr src"
  shows "packed_recv_count (recv_mem owner) (e mod num_local_experts c * num_ranks c + r)
           = int (slot_reservations (send_mem src) (e * num_ranks c + r))
       \<and> packed_recv_count (recv_mem owner) (e mod num_local_experts c * num_ranks c + r)
           \<le> num_max_dispatch_tokens_per_rank c"
proof -
  let ?L = "num_local_experts c" and ?R = "num_ranks c" and ?E = "num_experts c"
  let ?d = "e div ?L" and ?cell = "e mod ?L * ?R + r"
  let ?cfg = "rank_config c num_device_sms tokens"
  let ?send = "\<lambda>q. dispatch_send (?cfg q) (topk_idx q) (x q) ((send_mem (mem q))\<lparr>outbox := []\<rparr>)"
  from run_owner obtain senders where senders: "map_fatal ?send [0..<?R] = Inr senders"
    by (auto simp: dispatch_all_def split: sum.splits)
  have len: "length senders = ?R" and each: "\<And>q. q < ?R \<Longrightarrow> ?send q = Inr (senders ! q)"
    using map_fatal_Inr[OF senders] by auto
  have src: "send_mem src = senders ! r"
    using run_src senders by (auto simp: dispatch_all_def Let_def split: sum.splits)
  let ?ops = "concat (map outbox senders)"
  let ?counts = "fold (deliver_count ?d) ?ops (rdma_recv_count_mem (mem ?d))"
  let ?msgs = "fold (deliver_put ?d) ?ops (rdma_recv_x_mem (mem ?d))"
  from run_owner senders obtain received where
      recv: "dispatch_recv (?cfg ?d) (num_recv_tokens_per_rank ?d) (\<lambda>cell i. ?counts cell) ?msgs scale_of
               (recv_mem (mem ?d)) = Inr received"
      and owner: "recv_mem owner = received"
    by (auto simp: dispatch_all_def Let_def split: sum.splits)
  \<comment> \<open>what the source rank counted\<close>
  let ?n = "slot_reservations (senders ! r) (e * ?R + r)"
  have act: "actual_sent_count (?cfg r) e (senders ! r) = int ?n"
    using sender_actual_count[OF each[OF r]] sp zero_send r by simp
  \<comment> \<open>what arrives in the cell of the pair\<close>
  have per_rank: "sum_list (map (count_to ?d ?cell) (outbox (senders ! q)))
                    = (if q = r then encode_count (int ?n) else 0)" if "q < ?R" for q
    using sender_counts_to[OF each[OF that], of r e] sp that r e act by auto
  have "sum_list (map (count_to ?d ?cell) ?ops)
               = sum_list (map (\<lambda>q. sum_list (map (count_to ?d ?cell) (outbox (senders ! q)))) [0..<?R])"
    unfolding sum_list_concat_map
    using sum_list_nth[OF len, of "\<lambda>s. sum_list (map (count_to ?d ?cell) (outbox s))"]
    by (simp add: comp_def)
  also have "\<dots> = sum_list (map (\<lambda>q. if q = r then encode_count (int ?n) else 0) [0..<?R])"
    by (rule arg_cong[where f = sum_list], rule map_cong) (simp_all add: per_rank)
  also have "\<dots> = encode_count (int ?n)"
    using sum_list_single[OF r, of "\<lambda>_. encode_count (int ?n)"] by simp
  finally have arrived: "?counts ?cell = encode_count (int ?n)"
    using zero_count by (simp add: deliver_count_sum)
  \<comment> \<open>what the owner's block of the pair makes of it\<close>
  have Lpos: "0 < ?L" using e experts by (cases "?L = 0") simp_all
  have cell_lt: "?cell < ?L * ?R"
  proof -
    have "e mod ?L < ?L" using Lpos by simp
    then have "e mod ?L * ?R + r < Suc (e mod ?L) * ?R" using r by simp
    also have "\<dots> \<le> ?L * ?R" using \<open>e mod ?L < ?L\<close> by (intro mult_le_mono1) simp
    finally show ?thesis .
  qed
  from recv rp have blocks: "fold_fatal (recv_block (?cfg ?d) (num_recv_tokens_per_rank ?d)
                                (\<lambda>cell i. ?counts cell) ?msgs scale_of) [0..<?E] (recv_mem (mem ?d))
                              = Inr received"
    by (simp add: dispatch_recv_def)
  have "\<exists>v loads. wait_count (\<lambda>i. ?counts ?cell) 0 = Inr (v, loads)
          \<and> packed_recv_count received ?cell
               = packed_recv_count (recv_mem (mem ?d)) ?cell + decode_count v
          \<and> packed_recv_count (recv_mem (mem ?d)) ?cell + decode_count v
               \<le> num_max_dispatch_tokens_per_rank c"
    using recv_blocks_Inr[OF blocks, rule_format, of ?cell] process cell_lt experts by simp
  then obtain v loads where v: "wait_count (\<lambda>i. ?counts ?cell) 0 = Inr (v, loads)"
      "packed_recv_count received ?cell = decode_count v"
      "decode_count v \<le> num_max_dispatch_tokens_per_rank c"
    using zero_packed by auto
  have "v = encode_count (int ?n)"
    using wait_count_value[OF v(1)] arrived by auto
  then have "decode_count v = int ?n" by (simp add: encode_count_def decode_count_def)
  then show ?thesis using v owner src by simp
qed

lemma scenario_single_facts:
  "num_ranks scenario_single = 1" "num_experts scenario_single = 1" "num_topk scenario_single = 1"
  "num_max_dispatch_tokens_per_rank scenario_single = 4" "num_local_experts scenario_single = 1"
  "send_phase scenario_single" "recv_phase scenario_single" "is_pure_ep_mode scenario_single"
  "kHidden scenario_single = 128"
  by (simp_all add: scenario_single_def num_local_experts_def send_phase_def recv_phase_def
        is_pure_ep_mode_def)

lemma scenario_single_expected:
  "expected_count (rank_config scenario_single sms (\<lambda>_. Suc 0) 0) (\<lambda>_. 0) 0 = 1"
  by (simp add: expected_count_def expected_of_token_def expected_entry_def dst_expert_idx_def
        static_cast_int_def scenario_single_facts)

lemma scenario_single_send:
  "\<exists>s'. dispatch_send (rank_config scenario_single sms (\<lambda>_. Suc 0) 0) (\<lambda>_. 0) (\<lambda>_. ())
           (fresh_sender\<lparr>outbox := []\<rparr>) = Inr s'
        \<and> slot_reservations s' 0 = 1
        \<and> sum_list (map (count_to 0 0) (outbox s')) = - 2"
proof -
  let ?c = "rank_config scenario_single sms (\<lambda>_. Suc 0) 0"
  let ?s = "fresh_sender\<lparr>outbox := []\<rparr>"
  have z: "atomic_counter_per_expert ?s = (\<lambda>_. 0)" "slot_reservations ?s = (\<lambda>_. 0)" "outbox ?s = []"
    by (simp_all add: fresh_sender_def)
  have sp: "send_phase ?c" by (simp add: scenario_single_facts)
  obtain s' where run: "dispatch_send ?c (\<lambda>_. 0) (\<lambda>_. ()) ?s = Inr s'"
    using dispatch_send_fits[of ?c ?s "\<lambda>_. 0" "\<lambda>_. ()"] scenario_single_expected[of sms]
    by (auto simp: scenario_single_facts z)
  obtain s1 :: "unit sender" where s1:
      "\<forall>i. slot_reservations s1 i = slot_reservations ?s i + sent_total ?c (\<lambda>_. 0) [0..<num_experts ?c] i"
      "slot_reservations s' = slot_reservations s1"
    using dispatch_send_Inr[OF run sp] by blast
  have "sent_by_block ?c (\<lambda>_. 0) 0 = 1"
    using sent_by_block_expected[of ?c "\<lambda>_. 0" 0] scenario_single_expected[of sms] by simp
  then have n: "slot_reservations s' 0 = 1"
    using s1 z by (simp add: sent_total_def scenario_single_facts)
  have act: "actual_sent_count ?c 0 s' = int (slot_reservations s' (0 * num_ranks ?c + rank ?c))"
    using sender_actual_count[OF run sp z(1,2)] .
  have "sum_list (map (count_to (0 div num_local_experts ?c) (0 mod num_local_experts ?c * num_ranks ?c + 0))
                      (outbox s'))
          = (if rank ?c = 0 then encode_count (actual_sent_count ?c 0 s') else 0)"
    by (rule sender_counts_to[OF run sp z(3)]) (simp_all add: scenario_single_facts)
  then have "sum_list (map (count_to 0 0) (outbox s')) = - 2"
    using act n by (simp add: scenario_single_facts encode_count_def)
  then show ?thesis using run n by blast
qed



text \<open>The same dispatch with \<open>num_recv_tokens_per_rank = 1\<close>: both numbers are 1.\<close>

theorem packed_recv_count_single_rank:
  "map_sum id (\<lambda>m. (packed_recv_count (recv_mem m) 0, int (slot_reservations (send_mem m) 0)))
     (dispatch_all scenario_single 132 (\<lambda>_. Suc 0) (\<lambda>_ _. 0) (\<lambda>_ _. ()) (\<lambda>_ _. 1) (\<lambda>_ _. ())
        (\<lambda>_. fresh_memory) 0)
   = Inr (1, 1)"
proof -
  let ?c = "rank_config scenario_single 132 (\<lambda>_. Suc 0) 0"
  obtain s' where s': "dispatch_send ?c (\<lambda>_. 0) (\<lambda>_. ()) (fresh_sender\<lparr>outbox := []\<rparr>) = Inr s'"
      "slot_reservations s' 0 = 1" "sum_list (map (count_to 0 0) (outbox s')) = - 2"
    using scenario_single_send[of 132] by blast
  have counts: "fold (deliver_count 0) (outbox s') (\<lambda>_. 0) 0 = - 2"
    by (simp add: deliver_count_sum s'(3))
  have w: "wait_count (\<lambda>i. fold (deliver_count 0) (outbox s') (\<lambda>_. 0) 0) 0 = Inr (- 2, Suc 0)"
    by (simp add: wait_count_now counts)
  have "\<exists>received. dispatch_recv ?c (\<lambda>_. 1)
                  (\<lambda>cell i. fold (deliver_count 0) (outbox s') (\<lambda>_. 0) cell) msgs (\<lambda>_ _. ())
                  fresh_receiver = Inr received" for msgs
    by (simp add: dispatch_recv_def recv_block_def recv_warp_group_def recv_count_def Let_def w
          scenario_single_facts decode_count_def atomicAdd_def fresh_receiver_def num_scales_def
          copy_token_def rank_config_def dispatch_launch_def select_warps_launch')
  then obtain received where received:
      "dispatch_recv ?c (\<lambda>_. 1) (\<lambda>cell i. fold (deliver_count 0) (outbox s') (\<lambda>_. 0) cell)
         (fold (deliver_put 0) (outbox s') (\<lambda>_. \<lparr>src_idx = 0, payload = ()\<rparr>)) (\<lambda>_ _. ())
         fresh_receiver = Inr received"
    by blast
  let ?m = "\<lparr>send_mem = s', rdma_recv_count_mem = fold (deliver_count 0) (outbox s') (\<lambda>_. 0),
             rdma_recv_x_mem = fold (deliver_put 0) (outbox s') (\<lambda>_. \<lparr>src_idx = 0, payload = ()\<rparr>),
             recv_mem = received\<rparr>"
  have run: "dispatch_all scenario_single 132 (\<lambda>_. Suc 0) (\<lambda>_ _. 0) (\<lambda>_ _. ()) (\<lambda>_ _. 1) (\<lambda>_ _. ())
               (\<lambda>_. fresh_memory) 0 = Inr ?m"
    by (simp add: dispatch_all_def scenario_single_facts Let_def s' received fresh_memory_def)
  have "packed_recv_count (recv_mem ?m) (0 mod num_local_experts scenario_single * num_ranks scenario_single + 0)
          = int (slot_reservations (send_mem ?m) (0 * num_ranks scenario_single + 0))"
    using packed_recv_count_when_processed[where c=scenario_single and e=0 and r=0 and mem="\<lambda>_. fresh_memory"
            and num_recv_tokens_per_rank="\<lambda>_ _. 1" and owner="?m" and src="?m"
            and num_device_sms=132 and tokens="\<lambda>_. Suc 0" and topk_idx="\<lambda>_ _. 0" and x="\<lambda>_ _. ()"
            and scale_of="\<lambda>_ _. ()"]
          run
    by (simp add: scenario_single_facts fresh_memory_def fresh_sender_def fresh_receiver_def)
  then show ?thesis using run s'(2) by (simp add: scenario_single_facts)
qed

lemma expected_tokens_per_rank_in_bounds:
  "r < 8 \<Longrightarrow> in_expected_tokens_per_rank expert_idx (expected_tokens_per_rank_addr expert_idx r)"
  by (simp add: in_expected_tokens_per_rank_def expected_tokens_per_rank_addr_def)

lemma received_tokens_per_rank_in_bounds:
  "r < 8 \<Longrightarrow> in_received_tokens_per_rank expert_idx (received_tokens_per_rank_addr expert_idx r)"
  by (simp add: in_received_tokens_per_rank_def received_tokens_per_rank_addr_def)

lemma expected_tokens_per_rank_out_of_bounds:
  "in_sync_info expert_idx (expected_tokens_per_rank_addr expert_idx r) \<longleftrightarrow> r < 24"
  by (auto simp: in_sync_info_def expected_tokens_per_rank_addr_def sync_info_words_def)

lemma received_tokens_per_rank_out_of_bounds:
  "in_sync_info expert_idx (received_tokens_per_rank_addr expert_idx r) \<longleftrightarrow> r < 16"
  by (auto simp: in_sync_info_def received_tokens_per_rank_addr_def sync_info_words_def)

text \<open>
  Claim C7 at rank 24 of 32. The increment of \<open>expected_tokens_per_rank[rank]\<close> in the
  send loop of dispatch, for expert 0, addresses a word outside the structure of expert 0:
  it is \<open>expected_tokens_per_rank[0]\<close> of expert 1, which becomes 1. The increment of
  \<open>received_tokens_per_rank[rank]\<close> in combine, by 3 tokens, addresses a word outside
  the structure too: \<open>received_tokens_per_rank[0]\<close> of expert 1, which becomes 3.
\<close>

theorem sync_info_increment_outside_structure:
  "map_sum id
     (\<lambda>s. map_option (\<lambda>words. words (expected_tokens_per_rank_addr 1 0)) (expert_sync_info_buffer s))
     (send_entry scenario_rank24 (\<lambda>_. 0) (\<lambda>_. ()) 0 24 0 zeroed_sync_sender) = Inr (Some 1)
   \<and> in_sync_info 0 (expected_tokens_per_rank_addr 0 (rank scenario_rank24)) = False
   \<and> map_option (\<lambda>words. words (received_tokens_per_rank_addr 1 0))
        (update_received (Some (\<lambda>_. 0)) 0 (rank scenario_rank24) 3) = Some 3
   \<and> in_sync_info 0 (received_tokens_per_rank_addr 0 (rank scenario_rank24)) = False"
proof -
  have f: "num_ranks scenario_rank24 = 32" "rank scenario_rank24 = 24"
      "num_experts scenario_rank24 = 32" "num_topk scenario_rank24 = 1"
      "num_max_dispatch_tokens_per_rank scenario_rank24 = 4"
      "num_local_experts scenario_rank24 = 1" "is_pure_ep_mode scenario_rank24"
    by (simp_all add: scenario_rank24_def num_local_experts_def is_pure_ep_mode_def)
  note a = expected_tokens_per_rank_addr_def received_tokens_per_rank_addr_def
    total_expected_tokens_addr_def total_received_tokens_addr_def sync_info_words_def
  have 1: "map_sum id
     (\<lambda>s. map_option (\<lambda>words. words (expected_tokens_per_rank_addr 1 0)) (expert_sync_info_buffer s))
     (send_entry scenario_rank24 (\<lambda>_. 0) (\<lambda>_. ()) 0 24 0 zeroed_sync_sender) = Inr (Some 1)"
    by (simp add: send_entry_def dst_expert_idx_def static_cast_int_def f Let_def atomicAdd_def
          zeroed_sync_sender_def fresh_sender_def update_expected_def a)
  have 2: "map_option (\<lambda>words. words (received_tokens_per_rank_addr 1 0))
        (update_received (Some (\<lambda>_. 0)) 0 (rank scenario_rank24) 3) = Some 3"
    by (simp add: update_received_def f Let_def atomicAdd_def a)
  show ?thesis
    using 1 2
    by (simp add: f expected_tokens_per_rank_out_of_bounds received_tokens_per_rank_out_of_bounds)
qed

end
